theory Spec2Isabelle
  imports
    Complex_Main
    "HOL-Library.Multiset"
    "HOL-Library.List_Lexorder"
    "HOL-Library.Char_ord"
    "HOL-Library.Product_Lexorder"
begin


section \<open>Tables\<close>

text \<open>
  The program is a dictionary \<open>QUERIES\<close> of seven SQL statements over two tables,
  \<open>raw_traffic_readings\<close> (alias \<open>r\<close>) and \<open>sensors\<close> (alias \<open>s\<close>), and a driver that
  loads the selected statement's result into a data frame and renders it.

  A table is the list of its rows, in storage order. Columns are taken as non-null and
  well typed. \<open>speed\<close> and every value computed from it is an exact real number: the
  rounding of the database's \<open>numeric\<close> and \<open>double precision\<close> arithmetic is not
  modelled. \<open>record_time\<close> is a timestamp without time zone, counted in seconds.
\<close>

record reading =
  r_sensor_id :: nat
  vehicle_id :: nat
  speed :: real
  record_time :: int

record sensor =
  s_sensor_id :: nat
  location_name :: string
  road_type :: string

section \<open>The SQL primitives the statements use\<close>

text \<open>\<open>FROM raw_traffic_readings r JOIN sensors s ON s.sensor_id = r.sensor_id\<close>\<close>

definition joined :: "reading list \<Rightarrow> sensor list \<Rightarrow> (reading \<times> sensor) list" where
  "joined rs ss = [(r, s). r \<leftarrow> rs, s \<leftarrow> ss, s_sensor_id s = r_sensor_id r]"

text \<open>\<open>GROUP BY key\<close>: one group per distinct key, holding the rows with that key.\<close>

definition group_by :: "('a \<Rightarrow> 'k) \<Rightarrow> 'a list \<Rightarrow> ('k \<times> 'a list) list" where
  "group_by key rows = map (\<lambda>k. (k, filter (\<lambda>x. key x = k) rows)) (remdups (map key rows))"

text \<open>\<open>DATE_TRUNC('hour', t)\<close> and \<open>EXTRACT(HOUR FROM t)\<close>\<close>

definition date_trunc_hour :: "int \<Rightarrow> int" where
  "date_trunc_hour t = t - t mod 3600"

definition extract_hour :: "int \<Rightarrow> int" where
  "extract_hour t = (t div 3600) mod 24"

text \<open>\<open>COUNT(DISTINCT x)\<close>\<close>

definition count_distinct :: "'a list \<Rightarrow> nat" where
  "count_distinct xs = length (remdups xs)"

text \<open>\<open>AVG(x)\<close>: \<open>NULL\<close> (here \<open>None\<close>) over no rows.\<close>

definition avg :: "real list \<Rightarrow> real option" where
  "avg xs = (if xs = [] then None else Some (sum_list xs / real (length xs)))"

text \<open>\<open>ROUND(x, 2)\<close> on \<open>numeric\<close>: to the nearest hundredth, ties away from zero.\<close>

definition round2 :: "real \<Rightarrow> real" where
  "round2 x = sgn x * real_of_int \<lfloor>\<bar>x\<bar> * 100 + 1 / 2\<rfloor> / 100"

text \<open>
  \<open>a - b\<close> on nullable operands, and \<open>ROUND(x, 2)\<close> on a nullable operand: \<open>NULL\<close> when an
  operand is.
\<close>

definition sql_minus :: "real option \<Rightarrow> real option \<Rightarrow> real option" where
  "sql_minus a b = (case (a, b) of (Some x, Some y) \<Rightarrow> Some (x - y) | _ \<Rightarrow> None)"

definition sql_round2 :: "real option \<Rightarrow> real option" where
  "sql_round2 a = map_option round2 a"

section \<open>Statement 1: traffic peaks and flow intensity\<close>

record flow_row =
  hf_location_name :: string
  hf_hour_slot :: int
  hf_vehicle_count :: nat

record ranked_flow_row =
  q1_location_name :: string
  hour_slot :: int
  vehicle_count :: nat
  rank_within_location :: nat

text \<open>
  \<open>WITH hourly_flow AS (SELECT s.location_name, DATE_TRUNC('hour', r.record_time) AS hour_slot,
       COUNT(DISTINCT r.vehicle_id) AS vehicle_count
     FROM raw_traffic_readings r JOIN sensors s ON s.sensor_id = r.sensor_id
     GROUP BY s.location_name, hour_slot)\<close>
\<close>

definition hourly_flow :: "reading list \<Rightarrow> sensor list \<Rightarrow> flow_row list" where
  "hourly_flow rs ss =
     map (\<lambda>(k, g). \<lparr>hf_location_name = fst k, hf_hour_slot = snd k,
                     hf_vehicle_count = count_distinct (map (\<lambda>(r, s). vehicle_id r) g)\<rparr>)
       (group_by (\<lambda>(r, s). (location_name s, date_trunc_hour (record_time r))) (joined rs ss))"

text \<open>
  \<open>RANK()\<close> over the rows of one partition in window order, given the rows' order keys:
  a row that is a peer of the row before it (equal order key) keeps that row's rank, any
  other row takes its row number. \<open>n\<close> is the number of rows already passed, \<open>rk\<close> the
  rank of the last of them and \<open>prev\<close> its order key.
\<close>

fun rank_scan :: "nat \<Rightarrow> nat \<Rightarrow> 'k option \<Rightarrow> 'k list \<Rightarrow> nat list" where
  "rank_scan n rk prev [] = []"
| "rank_scan n rk prev (k # ks) =
     (let rk' = (if prev = Some k then rk else n + 1)
      in rk' # rank_scan (n + 1) rk' (Some k) ks)"

text \<open>\<open>RANK() OVER (... ORDER BY key)\<close> on one partition: each row with its rank.\<close>

definition rank_over :: "('a \<Rightarrow> 'k::linorder) \<Rightarrow> 'a list \<Rightarrow> ('a \<times> nat) list" where
  "rank_over key part =
     (let ordered = sort_key key part
      in zip ordered (rank_scan 0 0 None (map key ordered)))"

text \<open>
  The Peak Ranker, \<open>RANK() OVER (PARTITION BY location_name ORDER BY vehicle_count DESC)\<close>:
  descending order is ascending order of the negated count.
\<close>

definition rank_within :: "flow_row list \<Rightarrow> ranked_flow_row list" where
  "rank_within flow =
     concat (map (\<lambda>(loc, part).
         map (\<lambda>(x, rk). \<lparr>q1_location_name = hf_location_name x, hour_slot = hf_hour_slot x,
                          vehicle_count = hf_vehicle_count x, rank_within_location = rk\<rparr>)
           (rank_over (\<lambda>x. - int (hf_vehicle_count x)) part))
       (group_by hf_location_name flow))"

text \<open>
  The main query over the view \<open>hourly_flow\<close>:
  \<open>SELECT *, RANK() OVER (...) AS rank_within_location FROM hourly_flow
   ORDER BY location_name, rank_within_location, hour_slot\<close>
\<close>

definition peak_ranker :: "flow_row list \<Rightarrow> ranked_flow_row list" where
  "peak_ranker flow =
     sort_key (\<lambda>row. (q1_location_name row, rank_within_location row, hour_slot row))
       (rank_within flow)"

definition query1 :: "reading list \<Rightarrow> sensor list \<Rightarrow> ranked_flow_row list" where
  "query1 rs ss = peak_ranker (hourly_flow rs ss)"

section \<open>Statement 2: movement efficiency with slowdown detection\<close>

record speed_stats_row =
  ss_sensor_id :: nat
  ss_location_name :: string
  q1 :: "real option"
  q3 :: "real option"

record outlier_row =
  q2_sensor_id :: nat
  q2_location_name :: string
  q2_record_time :: int
  q2_speed :: real
  q2_traffic_status :: string

text \<open>
  \<open>PERCENTILE_CONT(p) WITHIN GROUP (ORDER BY x)\<close>: over \<open>n\<close> sorted values the position
  \<open>p * (n - 1)\<close> (counted from 0) lies between the rows \<open>floor\<close> and \<open>ceil\<close> of it; the result
  is the first row's value when the two coincide and otherwise the first value plus the
  fractional part of the position times the gap to the second. \<open>NULL\<close> over no rows.
\<close>

definition percentile_cont :: "real \<Rightarrow> real list \<Rightarrow> real option" where
  "percentile_cont p xs =
     (if xs = [] then None
      else
        let ordered = sort xs;
            pos = p * real (length xs - 1);
            first_row = nat \<lfloor>pos\<rfloor>;
            second_row = nat \<lceil>pos\<rceil>
        in Some (if first_row = second_row then ordered ! first_row
                 else ordered ! first_row
                      + (pos - real first_row) * (ordered ! second_row - ordered ! first_row)))"

text \<open>
  \<open>WITH speed_stats AS (SELECT s.sensor_id, s.location_name,
       PERCENTILE_CONT(0.25) WITHIN GROUP (ORDER BY r.speed) AS q1,
       PERCENTILE_CONT(0.75) WITHIN GROUP (ORDER BY r.speed) AS q3
     FROM raw_traffic_readings r JOIN sensors s ON s.sensor_id = r.sensor_id
     GROUP BY s.sensor_id, s.location_name)\<close>
\<close>

definition speed_stats :: "reading list \<Rightarrow> sensor list \<Rightarrow> speed_stats_row list" where
  "speed_stats rs ss =
     map (\<lambda>(k, g). \<lparr>ss_sensor_id = fst k, ss_location_name = snd k,
                     q1 = percentile_cont (1 / 4) (map (\<lambda>(r, s). speed r) g),
                     q3 = percentile_cont (3 / 4) (map (\<lambda>(r, s). speed r) g)\<rparr>)
       (group_by (\<lambda>(r, s). (s_sensor_id s, location_name s)) (joined rs ss))"

text \<open>
  \<open>CASE WHEN r.speed < q1 - 1.5*(q3 - q1) THEN 'Possible slowdown'
        WHEN r.speed > q3 + 1.5*(q3 - q1) THEN 'Abnormal high speed'
        ELSE 'Normal' END\<close>:
  the first branch whose condition is true; a comparison with \<open>NULL\<close> is not true.
\<close>

definition outlier_status :: "real \<Rightarrow> real option \<Rightarrow> real option \<Rightarrow> string" where
  "outlier_status v a b =
     (case (a, b) of
        (Some lo, Some hi) \<Rightarrow>
          if v < lo - 3 / 2 * (hi - lo) then ''Possible slowdown''
          else if v > hi + 3 / 2 * (hi - lo) then ''Abnormal high speed''
          else ''Normal''
      | _ \<Rightarrow> ''Normal'')"

text \<open>
  \<open>SELECT r.sensor_id, s.location_name, r.record_time, r.speed, CASE ... END AS traffic_status
   FROM raw_traffic_readings r JOIN sensors s ON s.sensor_id = r.sensor_id
     JOIN speed_stats q ON q.sensor_id = s.sensor_id
   ORDER BY s.location_name, r.record_time\<close>
\<close>

definition query2 :: "reading list \<Rightarrow> sensor list \<Rightarrow> outlier_row list" where
  "query2 rs ss =
     sort_key (\<lambda>row. (q2_location_name row, q2_record_time row))
       [\<lparr>q2_sensor_id = r_sensor_id r, q2_location_name = location_name s,
         q2_record_time = record_time r, q2_speed = speed r,
         q2_traffic_status = outlier_status (speed r) (q1 q) (q3 q)\<rparr>.
        (r, s) \<leftarrow> joined rs ss, q \<leftarrow> speed_stats rs ss, ss_sensor_id q = s_sensor_id s]"

section \<open>Statement 3: dynamic evaluation of traffic conditions\<close>

record rolling_row =
  q3_location_name :: string
  q3_record_time :: int
  rolling_avg_speed :: "real option"

text \<open>
  The frame \<open>ROWS BETWEEN 5 PRECEDING AND CURRENT ROW\<close> of row \<open>i\<close> (counted from 0) of an
  ordered partition: the rows \<open>i - 5\<close> to \<open>i\<close>, from the partition's first row when fewer
  than 5 precede.
\<close>

definition frame_5_preceding :: "'a list \<Rightarrow> nat \<Rightarrow> 'a list" where
  "frame_5_preceding part i = drop (i - 5) (take (i + 1) part)"

text \<open>
  A window's \<open>ORDER BY key\<close> hands the rows of a partition over in ascending order of the
  key. The order among peers, the rows of equal key, is not fixed by the statement: it is
  the executor's choice. \<open>srt\<close> stands for the executor's sort, and \<open>sorts_by key srt\<close> says
  all that is known of it: it returns the rows it is given, in ascending order of the key.
\<close>

definition sorts_by :: "('a \<Rightarrow> 'k::linorder) \<Rightarrow> ('a list \<Rightarrow> 'a list) \<Rightarrow> bool" where
  "sorts_by key srt = (\<forall>xs. mset (srt xs) = mset xs \<and> sorted (map key (srt xs)))"

text \<open>
  \<open>AVG(r.speed) OVER (PARTITION BY s.sensor_id ORDER BY r.record_time
     ROWS BETWEEN 5 PRECEDING AND CURRENT ROW)\<close> on one partition, sorted by the
  executor's \<open>srt\<close>.
\<close>

definition rolling_avg ::
  "((reading \<times> sensor) list \<Rightarrow> (reading \<times> sensor) list) \<Rightarrow> (reading \<times> sensor) list \<Rightarrow> rolling_row list" where
  "rolling_avg srt part =
     (let ordered = srt part
      in map (\<lambda>i. \<lparr>q3_location_name = location_name (snd (ordered ! i)),
                    q3_record_time = record_time (fst (ordered ! i)),
                    rolling_avg_speed = avg (map (\<lambda>(r, s). speed r) (frame_5_preceding ordered i))\<rparr>)
           [0..<length ordered])"

text \<open>
  \<open>SELECT s.location_name, r.record_time, AVG(r.speed) OVER (...) AS rolling_avg_speed
   FROM raw_traffic_readings r JOIN sensors s ON s.sensor_id = r.sensor_id
   ORDER BY s.location_name, r.record_time\<close>
\<close>

definition query3 ::
  "((reading \<times> sensor) list \<Rightarrow> (reading \<times> sensor) list) \<Rightarrow> reading list \<Rightarrow> sensor list \<Rightarrow> rolling_row list" where
  "query3 srt rs ss =
     sort_key (\<lambda>row. (q3_location_name row, q3_record_time row))
       (concat (map (\<lambda>(sid, part). rolling_avg srt part)
          (group_by (\<lambda>(r, s). s_sensor_id s) (joined rs ss))))"

section \<open>Statement 4: density-speed correlation\<close>

record density_row =
  q4_location_name :: string
  q4_vehicle_count :: nat
  q4_avg_speed :: "real option"

text \<open>
  \<open>SELECT s.location_name, COUNT(DISTINCT r.vehicle_id) AS vehicle_count, AVG(r.speed) AS avg_speed
   FROM raw_traffic_readings r JOIN sensors s ON s.sensor_id = r.sensor_id
   GROUP BY s.location_name ORDER BY vehicle_count DESC\<close>
\<close>

definition query4 :: "reading list \<Rightarrow> sensor list \<Rightarrow> density_row list" where
  "query4 rs ss =
     sort_key (\<lambda>row. - int (q4_vehicle_count row))
       (map (\<lambda>(loc, g). \<lparr>q4_location_name = loc,
                          q4_vehicle_count = count_distinct (map (\<lambda>(r, s). vehicle_id r) g),
                          q4_avg_speed = avg (map (\<lambda>(r, s). speed r) g)\<rparr>)
          (group_by (\<lambda>(r, s). location_name s) (joined rs ss)))"

section \<open>Statement 5: daily traffic trend\<close>

record hourly_row =
  h_hour_of_day :: int
  h_avg_speed :: "real option"

record trend_row =
  hour_of_day :: int
  avg_speed :: "real option"
  prev_hour_speed :: "real option"
  delta_speed :: "real option"

text \<open>
  \<open>WITH hourly AS (SELECT EXTRACT(HOUR FROM record_time) AS hour_of_day, AVG(speed) AS avg_speed
     FROM raw_traffic_readings GROUP BY hour_of_day)\<close>
\<close>

definition hourly :: "reading list \<Rightarrow> hourly_row list" where
  "hourly rs =
     map (\<lambda>(h, g). \<lparr>h_hour_of_day = h, h_avg_speed = avg (map speed g)\<rparr>)
       (group_by (\<lambda>r. extract_hour (record_time r)) rs)"

text \<open>
  The scan of the window \<open>OVER (ORDER BY hour_of_day)\<close>: \<open>LAG(avg_speed)\<close> is the
  \<open>avg_speed\<close> of the row before the current one, \<open>NULL\<close> at the first row. \<open>prev\<close> is
  \<open>None\<close> before the first row and \<open>Some\<close> of the previous row's \<open>avg_speed\<close> after it.
\<close>

fun lag_scan :: "real option option \<Rightarrow> hourly_row list \<Rightarrow> trend_row list" where
  "lag_scan prev [] = []"
| "lag_scan prev (x # xs) =
     (let lag = (case prev of None \<Rightarrow> None | Some p \<Rightarrow> p)
      in \<lparr>hour_of_day = h_hour_of_day x,
          avg_speed = h_avg_speed x,
          prev_hour_speed = lag,
          delta_speed = sql_round2 (sql_minus (h_avg_speed x) lag)\<rparr>
         # lag_scan (Some (h_avg_speed x)) xs)"

text \<open>
  \<open>SELECT hour_of_day, avg_speed, LAG(avg_speed) OVER (ORDER BY hour_of_day) AS prev_hour_speed,
     ROUND(avg_speed - LAG(avg_speed) OVER (ORDER BY hour_of_day), 2) AS delta_speed
   FROM hourly ORDER BY hour_of_day\<close>
\<close>

definition query5 :: "reading list \<Rightarrow> trend_row list" where
  "query5 rs = sort_key hour_of_day (lag_scan None (sort_key h_hour_of_day (hourly rs)))"

section \<open>Statement 6: irregular patterns and possible incidents\<close>

datatype sql_error = DivisionByZero

record stats_row =
  st_sensor_id :: nat
  mean_speed :: "real option"
  std_speed :: "real option"

record anomaly_row =
  q6_sensor_id :: nat
  q6_location_name :: string
  q6_record_time :: int
  q6_speed :: real
  z_score :: "real option"
  q6_traffic_status :: string

text \<open>
  \<open>STDDEV(x)\<close>, the sample standard deviation: \<open>NULL\<close> over fewer than two rows.
\<close>

definition stddev :: "real list \<Rightarrow> real option" where
  "stddev xs =
     (if length xs < 2 then None
      else
        let m = sum_list xs / real (length xs)
        in Some (sqrt (sum_list (map (\<lambda>x. (x - m)\<^sup>2) xs) / real (length xs - 1))))"

text \<open>
  \<open>WITH stats AS (SELECT s.sensor_id, AVG(r.speed) AS mean_speed, STDDEV(r.speed) AS std_speed
     FROM raw_traffic_readings r JOIN sensors s ON s.sensor_id = r.sensor_id
     GROUP BY s.sensor_id)\<close>
\<close>

definition stats :: "reading list \<Rightarrow> sensor list \<Rightarrow> stats_row list" where
  "stats rs ss =
     map (\<lambda>(sid, g). \<lparr>st_sensor_id = sid,
                       mean_speed = avg (map (\<lambda>(r, s). speed r) g),
                       std_speed = stddev (map (\<lambda>(r, s). speed r) g)\<rparr>)
       (group_by (\<lambda>(r, s). s_sensor_id s) (joined rs ss))"

text \<open>
  \<open>a / b\<close>: \<open>NULL\<close> when an operand is, and otherwise the error \<open>division by zero\<close>, which
  aborts the statement, when the divisor is 0.
\<close>

definition sql_div :: "real option \<Rightarrow> real option \<Rightarrow> sql_error + real option" where
  "sql_div a b =
     (case (a, b) of
        (Some x, Some y) \<Rightarrow> if y = 0 then Inl DivisionByZero else Inr (Some (x / y))
      | _ \<Rightarrow> Inr None)"

text \<open>
  One output row, with the value of \<open>(r.speed - st.mean_speed) / st.std_speed\<close> that the
  select list, the \<open>CASE\<close> and the \<open>ORDER BY\<close> all compute:
  \<open>ROUND(..., 2) AS z_score\<close> and
  \<open>CASE WHEN ABS(...) > 2.0 THEN 'Irregular' ELSE 'Regular' END AS traffic_status\<close>.
\<close>

definition anomaly :: "reading \<Rightarrow> sensor \<Rightarrow> stats_row \<Rightarrow> sql_error + (real option \<times> anomaly_row)" where
  "anomaly r s st =
     (case sql_div (sql_minus (Some (speed r)) (mean_speed st)) (std_speed st) of
        Inl e \<Rightarrow> Inl e
      | Inr z \<Rightarrow>
          Inr (z, \<lparr>q6_sensor_id = r_sensor_id r, q6_location_name = location_name s,
                   q6_record_time = record_time r, q6_speed = speed r,
                   z_score = sql_round2 z,
                   q6_traffic_status =
                     (case z of
                        Some v \<Rightarrow> if \<bar>v\<bar> > 2 then ''Irregular'' else ''Regular''
                      | None \<Rightarrow> ''Regular'')\<rparr>))"

text \<open>The rows of a statement, or the first error raised while computing them.\<close>

fun all_rows :: "('e + 'a) list \<Rightarrow> 'e + 'a list" where
  "all_rows [] = Inr []"
| "all_rows (Inl e # xs) = Inl e"
| "all_rows (Inr x # xs) = (case all_rows xs of Inl e \<Rightarrow> Inl e | Inr ys \<Rightarrow> Inr (x # ys))"

text \<open>
  \<open>ORDER BY ABS(...) DESC\<close>: largest first, and \<open>NULL\<close> before every number (the default
  for a descending order).
\<close>

definition abs_desc_key :: "real option \<Rightarrow> nat \<times> real" where
  "abs_desc_key z = (case z of None \<Rightarrow> (0, 0) | Some v \<Rightarrow> (1, - \<bar>v\<bar>))"

text \<open>
  \<open>SELECT r.sensor_id, s.location_name, r.record_time, r.speed, ROUND(..., 2) AS z_score,
     CASE ... END AS traffic_status
   FROM raw_traffic_readings r JOIN sensors s ON s.sensor_id = r.sensor_id
     JOIN stats st ON st.sensor_id = s.sensor_id
   ORDER BY ABS((r.speed - st.mean_speed) / st.std_speed) DESC\<close>
\<close>

definition query6 :: "reading list \<Rightarrow> sensor list \<Rightarrow> sql_error + anomaly_row list" where
  "query6 rs ss =
     (case all_rows [anomaly r s st.
             (r, s) \<leftarrow> joined rs ss, st \<leftarrow> stats rs ss, st_sensor_id st = s_sensor_id s] of
        Inl e \<Rightarrow> Inl e
      | Inr rows \<Rightarrow> Inr (map snd (sort_key (\<lambda>(z, row). abs_desc_key z) rows)))"

section \<open>Statement 7: speed by road type and hour\<close>

record road_row =
  q7_road_type :: string
  q7_hour_of_day :: int
  q7_avg_speed :: "real option"

text \<open>
  \<open>SELECT s.road_type, EXTRACT(HOUR FROM r.record_time)::int AS hour_of_day, AVG(r.speed) AS avg_speed
   FROM raw_traffic_readings r JOIN sensors s ON s.sensor_id = r.sensor_id
   GROUP BY s.road_type, hour_of_day ORDER BY s.road_type, hour_of_day\<close>
\<close>

definition query7 :: "reading list \<Rightarrow> sensor list \<Rightarrow> road_row list" where
  "query7 rs ss =
     sort_key (\<lambda>row. (q7_road_type row, q7_hour_of_day row))
       (map (\<lambda>(k, g). \<lparr>q7_road_type = fst k, q7_hour_of_day = snd k,
                        q7_avg_speed = avg (map (\<lambda>(r, s). speed r) g)\<rparr>)
          (group_by (\<lambda>(r, s). (road_type s, extract_hour (record_time r))) (joined rs ss)))"

section \<open>The driver\<close>

text \<open>
  The keys of \<open>QUERIES\<close>, in order. The driver picks its branch by a word of the selected
  title (\<open>flow\<close>, \<open>slowdown\<close>, \<open>dynamic\<close>, \<open>density\<close>, \<open>trend\<close>, \<open>irregular\<close>, \<open>road type\<close>);
  each title holds exactly one of these words, so the branch is the analysis.
\<close>

datatype analysis = FlowPeaks | Slowdown | Dynamic | DensitySpeed | Trend | Irregular | RoadType

datatype dataframe =
    FlowFrame "ranked_flow_row list"
  | OutlierFrame "outlier_row list"
  | RollingFrame "rolling_row list"
  | DensityFrame "density_row list"
  | TrendFrame "trend_row list"
  | AnomalyFrame "anomaly_row list"
  | RoadFrame "road_row list"

text \<open>
  \<open>load_data(QUERIES[title])\<close>: the statement's rows as a data frame, or the database's
  error, which \<open>pd.read_sql_query\<close> raises as an exception. \<open>srt\<close> is the sort of the
  database's executor.
\<close>

fun load_data ::
  "((reading \<times> sensor) list \<Rightarrow> (reading \<times> sensor) list) \<Rightarrow> analysis \<Rightarrow> reading list \<Rightarrow> sensor list
     \<Rightarrow> sql_error + dataframe" where
  "load_data srt FlowPeaks rs ss = Inr (FlowFrame (query1 rs ss))"
| "load_data srt Slowdown rs ss = Inr (OutlierFrame (query2 rs ss))"
| "load_data srt Dynamic rs ss = Inr (RollingFrame (query3 srt rs ss))"
| "load_data srt DensitySpeed rs ss = Inr (DensityFrame (query4 rs ss))"
| "load_data srt Trend rs ss = Inr (TrendFrame (query5 rs))"
| "load_data srt Irregular rs ss =
     (case query6 rs ss of Inl e \<Rightarrow> Inl e | Inr rows \<Rightarrow> Inr (AnomalyFrame rows))"
| "load_data srt RoadType rs ss = Inr (RoadFrame (query7 rs ss))"

text \<open>\<open>df.empty\<close>\<close>

fun df_empty :: "dataframe \<Rightarrow> bool" where
  "df_empty (FlowFrame rows) = (rows = [])"
| "df_empty (OutlierFrame rows) = (rows = [])"
| "df_empty (RollingFrame rows) = (rows = [])"
| "df_empty (DensityFrame rows) = (rows = [])"
| "df_empty (TrendFrame rows) = (rows = [])"
| "df_empty (AnomalyFrame rows) = (rows = [])"
| "df_empty (RoadFrame rows) = (rows = [])"

text \<open>
  Pearson's coefficient of a list of pairs as \<open>numpy.corrcoef\<close> computes it: the
  covariance over the product of the standard deviations, each normalised by \<open>n - 1\<close>.
  \<open>None\<close> stands for the floating-point \<open>NaN\<close> that a division \<open>0 / 0\<close> gives: with one
  pair (\<open>n - 1 = 0\<close>) and with a column of zero variance.
\<close>

definition pearson :: "(real \<times> real) list \<Rightarrow> real option" where
  "pearson ps =
     (let n = length ps;
          mx = sum_list (map fst ps) / real n;
          my = sum_list (map snd ps) / real n;
          dof = real (n - 1);
          cov_xy = sum_list (map (\<lambda>(x, y). (x - mx) * (y - my)) ps) / dof;
          var_x = sum_list (map (\<lambda>(x, y). (x - mx)\<^sup>2) ps) / dof;
          var_y = sum_list (map (\<lambda>(x, y). (y - my)\<^sup>2) ps) / dof
      in if n - 1 = 0 \<or> var_x = 0 \<or> var_y = 0 then None
         else Some (cov_xy / (sqrt var_x * sqrt var_y)))"

text \<open>
  \<open>Series.corr\<close>: the pairs in which a value is missing are dropped, no pair at all gives
  \<open>NaN\<close>, and the rest goes to \<open>numpy.corrcoef\<close>.
\<close>

definition corr :: "real list \<Rightarrow> real option list \<Rightarrow> real option" where
  "corr xs ys =
     (let valid = List.map_filter (\<lambda>(x, y). map_option (Pair x) y) (zip xs ys)
      in if valid = [] then None else pearson valid)"

text \<open>Python's \<open>round(x, 2)\<close>: to the nearest hundredth, ties to the even neighbour.\<close>

definition py_round2 :: "real \<Rightarrow> real" where
  "py_round2 x =
     (let y = x * 100; f = \<lfloor>y\<rfloor>
      in real_of_int (if y - real_of_int f < 1 / 2 then f
                      else if y - real_of_int f > 1 / 2 then f + 1
                      else if even f then f else f + 1) / 100)"

text \<open>The column \<open>df["vehicle_count"]\<close> of the density summary, as numbers.\<close>

definition counts :: "density_row list \<Rightarrow> real list" where
  "counts rows = map (\<lambda>row. real (q4_vehicle_count row)) rows"

text \<open>
  What one pass of the driver's loop shows: the warning, the charts and tables of a data
  frame (their construction is presentation and is not modelled), or, for the density
  view, the metric \<open>round(corr, 2)\<close> of
  \<open>corr = df["vehicle_count"].corr(df["avg_speed"])\<close> above the table.
\<close>

datatype display =
    Warning string
  | Charts dataframe
  | Metric "real option" dataframe

fun render :: "dataframe \<Rightarrow> display" where
  "render (DensityFrame rows) =
     Metric (map_option py_round2 (corr (counts rows) (map q4_avg_speed rows)))
       (DensityFrame rows)"
| "render df = Charts df"

text \<open>
  \<open>df = load_data(query); if df.empty: st.warning("No data returned.") else: ...\<close>.
  \<open>Inl\<close> is the exception that leaves the loop.
\<close>

definition run_view ::
  "((reading \<times> sensor) list \<Rightarrow> (reading \<times> sensor) list) \<Rightarrow> analysis \<Rightarrow> reading list \<Rightarrow> sensor list
     \<Rightarrow> sql_error + display" where
  "run_view srt a rs ss =
     (case load_data srt a rs ss of
        Inl e \<Rightarrow> Inl e
      | Inr df \<Rightarrow> Inr (if df_empty df then Warning ''No data returned.'' else render df))"

section \<open>The notions of the specification\<close>

text \<open>
  What the claims speak of and the statements do not name: these definitions follow the
  specification's words, and the theorems compare the statements' results with them.
\<close>

text \<open>A reading is matched when some row of \<open>sensors\<close> has its \<open>sensor_id\<close>.\<close>

definition matched :: "sensor list \<Rightarrow> reading \<Rightarrow> bool" where
  "matched ss r = (r_sensor_id r \<in> set (map s_sensor_id ss))"

text \<open>
  The vehicles observed at a location in an hour slot: the \<open>vehicle_id\<close>s of the readings
  whose sensor stands at the location and whose \<open>record_time\<close> truncates to the slot.
\<close>

definition vehicles_seen :: "reading list \<Rightarrow> sensor list \<Rightarrow> string \<Rightarrow> int \<Rightarrow> nat set" where
  "vehicles_seen rs ss loc h =
     {vehicle_id r | r s. r \<in> set rs \<and> s \<in> set ss \<and> s_sensor_id s = r_sensor_id r \<and>
        location_name s = loc \<and> date_trunc_hour (record_time r) = h}"

text \<open>The \<open>hourly_flow\<close> columns of a ranked row (the \<open>*\<close> of the select list).\<close>

definition flow_of :: "ranked_flow_row \<Rightarrow> flow_row" where
  "flow_of row = \<lparr>hf_location_name = q1_location_name row, hf_hour_slot = hour_slot row,
                  hf_vehicle_count = vehicle_count row\<rparr>"

text \<open>
  Competition ranking counts, for a row, the rows of its location with a larger
  \<open>vehicle_count\<close> (\<open>outranking\<close>) and those with the same one (\<open>tied\<close>, the row included).
\<close>

definition outranking :: "ranked_flow_row list \<Rightarrow> ranked_flow_row \<Rightarrow> nat" where
  "outranking rows row =
     length (filter (\<lambda>x. q1_location_name x = q1_location_name row \<and>
                          vehicle_count x > vehicle_count row) rows)"

definition tied :: "ranked_flow_row list \<Rightarrow> ranked_flow_row \<Rightarrow> nat" where
  "tied rows row =
     length (filter (\<lambda>x. q1_location_name x = q1_location_name row \<and>
                          vehicle_count x = vehicle_count row) rows)"

text \<open>
  A sensor's entire speed history, and the row the Dispersion Outlier Classifier owes a
  joined reading: its status decided by the quartiles of its sensor's history.
\<close>

definition speed_history :: "reading list \<Rightarrow> nat \<Rightarrow> real list" where
  "speed_history rs sid = map speed (filter (\<lambda>r. r_sensor_id r = sid) rs)"

definition outlier_spec :: "reading list \<Rightarrow> reading \<Rightarrow> sensor \<Rightarrow> outlier_row" where
  "outlier_spec rs r s =
     \<lparr>q2_sensor_id = r_sensor_id r, q2_location_name = location_name s,
      q2_record_time = record_time r, q2_speed = speed r,
      q2_traffic_status =
        outlier_status (speed r)
          (percentile_cont (1 / 4) (speed_history rs (r_sensor_id r)))
          (percentile_cont (3 / 4) (speed_history rs (r_sensor_id r)))\<rparr>"

text \<open>The value \<open>PERCENTILE_CONT\<close> reads off a sorted list at a position.\<close>

definition interpolate :: "real list \<Rightarrow> real \<Rightarrow> real" where
  "interpolate s x =
     (if nat \<lfloor>x\<rfloor> = nat \<lceil>x\<rceil> then s ! nat \<lfloor>x\<rfloor>
      else s ! nat \<lfloor>x\<rfloor> + (x - real (nat \<lfloor>x\<rfloor>)) * (s ! nat \<lceil>x\<rceil> - s ! nat \<lfloor>x\<rfloor>))"

text \<open>
  The Rolling Window Averager in the specification's words. The window of row \<open>i\<close> of a
  sensor's readings \<open>h\<close>, ordered by \<open>record_time\<close> ascending, is that row and the up to 5
  rows before it; the view has one row per reading, with the mean of the window's speeds
  (\<open>rolling_rows\<close>). When no two readings of the sensor have the same \<open>record_time\<close> there
  is one such order, \<open>sensor_history\<close>, and the sensor's rows are \<open>rolling_spec\<close>.
\<close>

definition window_mean :: "reading list \<Rightarrow> nat \<Rightarrow> real" where
  "window_mean h i =
     (let w = map (\<lambda>j. speed (h ! j)) [i - 5..<i + 1]
      in sum_list w / real (length w))"

definition rolling_rows :: "sensor \<Rightarrow> reading list \<Rightarrow> rolling_row list" where
  "rolling_rows s h =
     map (\<lambda>i. \<lparr>q3_location_name = location_name s,
                 q3_record_time = record_time (h ! i),
                 rolling_avg_speed = Some (window_mean h i)\<rparr>)
       [0..<length h]"

definition sensor_history :: "reading list \<Rightarrow> nat \<Rightarrow> reading list" where
  "sensor_history rs sid = sort_key record_time (filter (\<lambda>r. r_sensor_id r = sid) rs)"

definition rolling_spec :: "reading list \<Rightarrow> sensor \<Rightarrow> rolling_row list" where
  "rolling_spec rs s = rolling_rows s (sensor_history rs (s_sensor_id s))"

text \<open>
  Two sorts an executor may use: the stable one, which leaves peers in the order of its
  input, and one that hands peers over in the reverse of that order.
\<close>

definition stable_sort :: "(reading \<times> sensor) list \<Rightarrow> (reading \<times> sensor) list" where
  "stable_sort part = sort_key (\<lambda>(r, s). record_time r) part"

definition reversing_sort :: "(reading \<times> sensor) list \<Rightarrow> (reading \<times> sensor) list" where
  "reversing_sort part = rev (sort_key (\<lambda>(r, s). - record_time r) part)"

section \<open>Example snapshots\<close>

text \<open>A \<open>sensors\<close> table with one sensor, and one with a sensor at each of two locations.\<close>

definition one_sensor :: "sensor list" where
  "one_sensor = [\<lparr>s_sensor_id = 1, location_name = ''A'', road_type = ''urban''\<rparr>]"

definition two_sensors :: "sensor list" where
  "two_sensors =
     [\<lparr>s_sensor_id = 1, location_name = ''A'', road_type = ''urban''\<rparr>,
      \<lparr>s_sensor_id = 2, location_name = ''B'', road_type = ''highway''\<rparr>]"

text \<open>
  One vehicle read twice and another once in the first hour at one location, and the
  first vehicle again in the next hour.
\<close>

definition flow_example :: "reading list" where
  "flow_example =
     [\<lparr>r_sensor_id = 1, vehicle_id = 7, speed = 40, record_time = 10\<rparr>,
      \<lparr>r_sensor_id = 1, vehicle_id = 7, speed = 42, record_time = 20\<rparr>,
      \<lparr>r_sensor_id = 1, vehicle_id = 8, speed = 35, record_time = 30\<rparr>,
      \<lparr>r_sensor_id = 1, vehicle_id = 7, speed = 50, record_time = 3700\<rparr>]"

text \<open>The counts 10, 50 and 20 of one location at the hours 0, 1 and 2.\<close>

definition peak_example :: "flow_row list" where
  "peak_example =
     [\<lparr>hf_location_name = ''A'', hf_hour_slot = 0, hf_vehicle_count = 10\<rparr>,
      \<lparr>hf_location_name = ''A'', hf_hour_slot = 3600, hf_vehicle_count = 50\<rparr>,
      \<lparr>hf_location_name = ''A'', hf_hour_slot = 7200, hf_vehicle_count = 20\<rparr>]"

text \<open>Six readings of one sensor, out of time order, with one low and one high speed.\<close>

definition outlier_example :: "reading list" where
  "outlier_example =
     [\<lparr>r_sensor_id = 1, vehicle_id = 1, speed = 100, record_time = 5\<rparr>,
      \<lparr>r_sensor_id = 1, vehicle_id = 2, speed = 12, record_time = 2\<rparr>,
      \<lparr>r_sensor_id = 1, vehicle_id = 3, speed = 11, record_time = 3\<rparr>,
      \<lparr>r_sensor_id = 1, vehicle_id = 4, speed = 13, record_time = 4\<rparr>,
      \<lparr>r_sensor_id = 1, vehicle_id = 5, speed = 1, record_time = 1\<rparr>,
      \<lparr>r_sensor_id = 1, vehicle_id = 6, speed = 14, record_time = 6\<rparr>]"

text \<open>Seven readings of one sensor, speeds 10 to 70, in time order.\<close>

definition rolling_example :: "reading list" where
  "rolling_example =
     [\<lparr>r_sensor_id = 1, vehicle_id = 1, speed = 10, record_time = 1\<rparr>,
      \<lparr>r_sensor_id = 1, vehicle_id = 2, speed = 20, record_time = 2\<rparr>,
      \<lparr>r_sensor_id = 1, vehicle_id = 3, speed = 30, record_time = 3\<rparr>,
      \<lparr>r_sensor_id = 1, vehicle_id = 4, speed = 40, record_time = 4\<rparr>,
      \<lparr>r_sensor_id = 1, vehicle_id = 5, speed = 50, record_time = 5\<rparr>,
      \<lparr>r_sensor_id = 1, vehicle_id = 6, speed = 60, record_time = 6\<rparr>,
      \<lparr>r_sensor_id = 1, vehicle_id = 7, speed = 70, record_time = 7\<rparr>]"

text \<open>Two readings of one sensor at the same time, speeds 10 and 40.\<close>

definition rolling_peer_example :: "reading list" where
  "rolling_peer_example =
     [\<lparr>r_sensor_id = 1, vehicle_id = 1, speed = 10, record_time = 1\<rparr>,
      \<lparr>r_sensor_id = 1, vehicle_id = 2, speed = 40, record_time = 1\<rparr>]"

text \<open>
  One vehicle at each of the two locations, and the same with a second vehicle at the
  second location.
\<close>

definition density_example :: "reading list" where
  "density_example =
     [\<lparr>r_sensor_id = 1, vehicle_id = 1, speed = 10, record_time = 0\<rparr>,
      \<lparr>r_sensor_id = 2, vehicle_id = 2, speed = 20, record_time = 0\<rparr>]"

definition density_example2 :: "reading list" where
  "density_example2 =
     [\<lparr>r_sensor_id = 1, vehicle_id = 1, speed = 10, record_time = 0\<rparr>,
      \<lparr>r_sensor_id = 2, vehicle_id = 2, speed = 20, record_time = 0\<rparr>,
      \<lparr>r_sensor_id = 2, vehicle_id = 3, speed = 40, record_time = 0\<rparr>]"

text \<open>One reading of speed 10 in hour 0, and readings of speed 10, 10 and 11 in hour 1.\<close>

definition trend_example :: "reading list" where
  "trend_example =
     [\<lparr>r_sensor_id = 1, vehicle_id = 1, speed = 10, record_time = 0\<rparr>,
      \<lparr>r_sensor_id = 1, vehicle_id = 2, speed = 10, record_time = 3600\<rparr>,
      \<lparr>r_sensor_id = 1, vehicle_id = 3, speed = 10, record_time = 3700\<rparr>,
      \<lparr>r_sensor_id = 1, vehicle_id = 4, speed = 11, record_time = 3800\<rparr>]"

text \<open>
  One reading of speed 10 in hour 0, readings of speed 10 and 10.25 in hour 1, and one of
  speed 10 in hour 2: the averages 10, 10.125 and 10 differ by an eighth.
\<close>

definition trend_tie_example :: "reading list" where
  "trend_tie_example =
     [\<lparr>r_sensor_id = 1, vehicle_id = 1, speed = 10, record_time = 0\<rparr>,
      \<lparr>r_sensor_id = 1, vehicle_id = 2, speed = 10, record_time = 3600\<rparr>,
      \<lparr>r_sensor_id = 1, vehicle_id = 3, speed = 41 / 4, record_time = 3700\<rparr>,
      \<lparr>r_sensor_id = 1, vehicle_id = 4, speed = 10, record_time = 7200\<rparr>]"

text \<open>Two readings of one sensor at the same speed.\<close>

definition constant_speed_example :: "reading list" where
  "constant_speed_example =
     [\<lparr>r_sensor_id = 1, vehicle_id = 1, speed = 50, record_time = 0\<rparr>,
      \<lparr>r_sensor_id = 1, vehicle_id = 2, speed = 50, record_time = 60\<rparr>]"

section \<open>The join, grouping and sorting\<close>

lemma joined_Nil: "joined [] ss = []"
  by (simp add: joined_def)

lemma joined_conv:
  "joined rs ss = concat (map (\<lambda>r. map (Pair r) (filter (\<lambda>s. s_sensor_id s = r_sensor_id r) ss)) rs)"
proof -
  have "concat (map (\<lambda>s. if s_sensor_id s = k then [(r, s)] else []) ss)
      = map (Pair r) (filter (\<lambda>s. s_sensor_id s = k) ss)" for r :: reading and k
    by (induction ss) simp_all
  then show ?thesis by (simp add: joined_def)
qed

lemma set_joined:
  "set (joined rs ss) = {(r, s). r \<in> set rs \<and> s \<in> set ss \<and> s_sensor_id s = r_sensor_id r}"
  by (auto simp: joined_conv)

lemma joined_sensor_mem: "(r, s) \<in> set (joined rs ss) \<Longrightarrow> s \<in> set ss \<and> r \<in> set rs \<and> s_sensor_id s = r_sensor_id r"
  by (auto simp: joined_conv)

lemma mset_joined:
  "mset (joined rs ss) =
     (\<Sum>r \<in># mset rs. image_mset (Pair r) (filter_mset (\<lambda>s. s_sensor_id s = r_sensor_id r) (mset ss)))"
  unfolding joined_conv by (induction rs) simp_all

lemma group_by_Nil: "group_by key [] = []"
  by (simp add: group_by_def)

lemma group_by_mem:
  "(k, g) \<in> set (group_by key rows) \<longleftrightarrow> k \<in> key ` set rows \<and> g = filter (\<lambda>x. key x = k) rows"
  by (auto simp: group_by_def)

lemma group_by_nonempty: "(k, g) \<in> set (group_by key rows) \<Longrightarrow> g \<noteq> []"
  by (auto simp: group_by_mem filter_empty_conv)

lemma sum_list_indicator:
  "distinct ks \<Longrightarrow> sum_list (map (\<lambda>k. if k = c then (v::nat) else 0) ks) = (if c \<in> set ks then v else 0)"
  by (induction ks) auto

lemma count_mset_concat:
  "count (mset (concat xss)) a = sum_list (map (\<lambda>xs. count (mset xs) a) xss)"
  by (induction xss) simp_all

lemma mset_group_by: "mset (concat (map snd (group_by key xs))) = mset xs"
proof (rule multiset_eqI)
  fix a
  let ?ks = "remdups (map key xs)"
  have "count (mset (concat (map snd (group_by key xs)))) a
      = sum_list (map (\<lambda>k. count (mset (filter (\<lambda>x. key x = k) xs)) a) ?ks)"
    by (simp add: group_by_def count_mset_concat comp_def)
  also have "\<dots> = sum_list (map (\<lambda>k. if k = key a then count (mset xs) a else 0) ?ks)"
    by (intro arg_cong[where f = sum_list] map_cong) auto
  also have "\<dots> = (if key a \<in> set ?ks then count (mset xs) a else 0)"
    by (rule sum_list_indicator) simp
  also have "\<dots> = count (mset xs) a"
    by (auto simp: count_eq_zero_iff image_iff)
  finally show "count (mset (concat (map snd (group_by key xs)))) a = count (mset xs) a" .
qed

lemma mset_concat_map_cong:
  assumes "distinct xs" "distinct ys" "set xs \<subseteq> set ys"
    and "\<And>y. y \<in> set ys \<Longrightarrow> y \<notin> set xs \<Longrightarrow> F y = []"
  shows "mset (concat (map F xs)) = mset (concat (map F ys))"
proof -
  have drop: "mset (concat (map F (filter (\<lambda>y. y \<in> set xs) zs))) = mset (concat (map F zs))"
    if "set zs \<subseteq> set ys" for zs
    using that by (induction zs) (auto simp: assms(4))
  have "distinct (filter (\<lambda>y. y \<in> set xs) ys)" using assms(2) by simp
  moreover have "set (filter (\<lambda>y. y \<in> set xs) ys) = set xs" using assms(3) by auto
  ultimately have "mset (filter (\<lambda>y. y \<in> set xs) ys) = mset xs"
    using assms(1) set_eq_iff_mset_eq_distinct by blast
  then have "mset (concat (map F (filter (\<lambda>y. y \<in> set xs) ys))) = mset (concat (map F xs))"
    by (metis mset_concat mset_map sum_mset_sum_list)
  with drop[of ys] show ?thesis by simp
qed

lemma map_sort_key: "map f (sort_key f xs) = sort (map f xs)"
  by (rule properties_for_sort[symmetric]) simp_all

lemma sort_key_map: "sort_key f (map g xs) = map g (sort_key (\<lambda>x. f (g x)) xs)"
proof (induction xs)
  case Nil
  then show ?case by simp
next
  case (Cons x xs)
  have "insort_key f (g x) (map g ys) = map g (insort_key (\<lambda>x. f (g x)) x ys)" for ys
    by (induction ys) simp_all
  with Cons show ?case by simp
qed

lemma sorted_le_last: "sorted xs \<Longrightarrow> x \<in> set xs \<Longrightarrow> x \<le> last xs"
  by (induction xs) auto

lemma length_filter_split:
  assumes "\<And>x. x \<in> set xs \<Longrightarrow> P x \<longleftrightarrow> Q x \<or> R x" "\<And>x. x \<in> set xs \<Longrightarrow> \<not> (Q x \<and> R x)"
  shows "length (filter P xs) = length (filter Q xs) + length (filter R xs)"
  using assms by (induction xs) auto

lemma filter_key_unique:
  "distinct (map f xs) \<Longrightarrow> x \<in> set xs \<Longrightarrow> filter (\<lambda>y. f y = f x) xs = [x]"
proof (induction xs)
  case Nil
  then show ?case by simp
next
  case (Cons a xs)
  show ?case
  proof (cases "a = x")
    case True
    with Cons.prems have "f x \<notin> f ` set xs" by simp
    then have "\<forall>y \<in> set xs. f y \<noteq> f x" by (metis imageI)
    then have "filter (\<lambda>y. f y = f x) xs = []" by (simp add: filter_empty_conv)
    with True show ?thesis by simp
  next
    case False
    with Cons.prems have "x \<in> set xs" "f a \<noteq> f x" by auto
    with Cons show ?thesis by simp
  qed
qed

lemma sensor_of_reading:
  assumes "distinct (map s_sensor_id ss)" "s \<in> set ss"
  shows "filter (\<lambda>s'. s_sensor_id s' = s_sensor_id s) ss = [s]"
  using filter_key_unique[OF assms] .

lemma sensor_unique:
  assumes "distinct (map s_sensor_id ss)" "s \<in> set ss" "s' \<in> set ss" "s_sensor_id s' = s_sensor_id s"
  shows "s' = s"
  using assms by (meson distinct_map inj_on_def)

lemma sensor_partition:
  assumes "distinct (map s_sensor_id ss)" "s \<in> set ss"
  shows "filter (\<lambda>(r, s'). s_sensor_id s' = s_sensor_id s) (joined rs ss)
       = map (\<lambda>r. (r, s)) (filter (\<lambda>r. r_sensor_id r = s_sensor_id s) rs)"
proof (induction rs)
  case Nil
  then show ?case by (simp add: joined_conv)
next
  case (Cons r rs)
  have one: "filter (\<lambda>(r', s'). s_sensor_id s' = s_sensor_id s)
          (map (Pair r) (filter (\<lambda>s'. s_sensor_id s' = r_sensor_id r) ss))
        = (if r_sensor_id r = s_sensor_id s then [(r, s)] else [])"
  proof (cases "r_sensor_id r = s_sensor_id s")
    case True
    then show ?thesis by (simp add: sensor_of_reading[OF assms] filter_map comp_def)
  next
    case False
    then have "filter (\<lambda>s'. s_sensor_id s' = s_sensor_id s \<and> s_sensor_id s' = r_sensor_id r) ss = []"
      by (auto simp: filter_empty_conv)
    with False show ?thesis by (simp add: filter_map comp_def)
  qed
  from Cons one show ?case by (simp add: joined_conv)
qed

section \<open>Hourly flow and the peak ranking\<close>

lemma hourly_flow_example:
  "hourly_flow flow_example one_sensor =
     [\<lparr>hf_location_name = ''A'', hf_hour_slot = 0, hf_vehicle_count = 2\<rparr>,
      \<lparr>hf_location_name = ''A'', hf_hour_slot = 3600, hf_vehicle_count = 1\<rparr>]"
  by (simp add: hourly_flow_def group_by_def joined_def count_distinct_def date_trunc_hour_def
      flow_example_def one_sensor_def)

lemma peak_ranker_example:
  "peak_ranker peak_example =
     [\<lparr>q1_location_name = ''A'', hour_slot = 3600, vehicle_count = 50, rank_within_location = 1\<rparr>,
      \<lparr>q1_location_name = ''A'', hour_slot = 7200, vehicle_count = 20, rank_within_location = 2\<rparr>,
      \<lparr>q1_location_name = ''A'', hour_slot = 0, vehicle_count = 10, rank_within_location = 3\<rparr>]"
  by (simp add: peak_ranker_def rank_within_def rank_over_def group_by_def peak_example_def)

lemma hourly_flow_keys:
  "map (\<lambda>row. (hf_location_name row, hf_hour_slot row)) (hourly_flow rs ss)
     = remdups (map (\<lambda>(r, s). (location_name s, date_trunc_hour (record_time r))) (joined rs ss))"
  by (simp add: hourly_flow_def group_by_def comp_def)

lemma hourly_flow_mem:
  assumes "row \<in> set (hourly_flow rs ss)"
  shows "hf_vehicle_count row = card (vehicles_seen rs ss (hf_location_name row) (hf_hour_slot row))"
    and "vehicles_seen rs ss (hf_location_name row) (hf_hour_slot row) \<noteq> {}"
proof -
  let ?key = "\<lambda>(r, s). (location_name s, date_trunc_hour (record_time r))"
  from assms have "row \<in> (\<lambda>k. \<lparr>hf_location_name = fst k, hf_hour_slot = snd k,
        hf_vehicle_count = count_distinct (map (\<lambda>(r, s). vehicle_id r)
          (filter (\<lambda>x. ?key x = k) (joined rs ss)))\<rparr>) ` (?key ` set (joined rs ss))"
    by (simp add: hourly_flow_def group_by_def image_image)
  then obtain k where k: "k \<in> ?key ` set (joined rs ss)"
    and row: "row = \<lparr>hf_location_name = fst k, hf_hour_slot = snd k,
        hf_vehicle_count = count_distinct (map (\<lambda>(r, s). vehicle_id r)
          (filter (\<lambda>x. ?key x = k) (joined rs ss)))\<rparr>"
    by blast
  have seen: "set (map (\<lambda>(r, s). vehicle_id r) (filter (\<lambda>x. ?key x = k) (joined rs ss)))
      = vehicles_seen rs ss (fst k) (snd k)"
    by (cases k) (auto simp: vehicles_seen_def set_joined image_iff)
  show "hf_vehicle_count row = card (vehicles_seen rs ss (hf_location_name row) (hf_hour_slot row))"
    using seen by (simp add: row count_distinct_def length_remdups_card_conv)
  from k show "vehicles_seen rs ss (hf_location_name row) (hf_hour_slot row) \<noteq> {}"
    by (cases k) (auto simp: row vehicles_seen_def set_joined)
qed

lemma hourly_flow_complete:
  assumes "vehicles_seen rs ss loc h \<noteq> {}"
  shows "(loc, h) \<in> set (map (\<lambda>row. (hf_location_name row, hf_hour_slot row)) (hourly_flow rs ss))"
proof -
  from assms obtain r s where "(r, s) \<in> set (joined rs ss)" "location_name s = loc"
    "date_trunc_hour (record_time r) = h"
    by (auto simp: vehicles_seen_def set_joined)
  then show ?thesis
    unfolding hourly_flow_keys by force
qed

lemma length_rank_scan: "length (rank_scan n rk prev ks) = length ks"
  by (induction ks arbitrary: n rk prev) (simp_all add: Let_def)

lemma rank_scan_nth:
  fixes ks :: "'k::linorder list"
  assumes "sorted (pre @ ks)" "i < length ks" "n = length pre"
    and "prev = (if pre = [] then None else Some (last pre))"
    and "pre \<noteq> [] \<Longrightarrow> rk = 1 + length (filter (\<lambda>x. x < last pre) pre)"
  shows "rank_scan n rk prev ks ! i = 1 + length (filter (\<lambda>x. x < ks ! i) (pre @ ks))"
  using assms
proof (induction ks arbitrary: pre i n prev rk)
  case Nil
  then show ?case by simp
next
  case (Cons k ks)
  define rk' where "rk' = (if prev = Some k then rk else n + 1)"
  have sorted_pre: "\<forall>x \<in> set pre. x \<le> k" and later: "\<forall>x \<in> set ks. k \<le> x"
    using Cons.prems(1) by (auto simp: sorted_append)
  have R: "rk' = 1 + length (filter (\<lambda>x. x < k) pre)"
  proof (cases "pre = []")
    case True
    with Cons.prems show ?thesis by (simp add: rk'_def)
  next
    case False
    show ?thesis
    proof (cases "last pre = k")
      case True
      with False Cons.prems show ?thesis by (simp add: rk'_def)
    next
      case neq: False
      have "sorted pre" using Cons.prems(1) by (simp add: sorted_append)
      then have "\<forall>x \<in> set pre. x \<le> last pre"
        by (simp add: sorted_le_last)
      moreover have "last pre < k"
        using sorted_pre neq False by (metis last_in_set order_le_less)
      ultimately have "filter (\<lambda>x. x < k) pre = pre"
        by (auto simp: filter_id_conv)
      with False neq Cons.prems show ?thesis by (simp add: rk'_def)
    qed
  qed
  have none_later: "filter (\<lambda>x. x < k) (k # ks) = []"
    using later by (auto simp: filter_empty_conv)
  show ?case
  proof (cases i)
    case 0
    then show ?thesis using R none_later by (simp add: rk'_def[symmetric] Let_def)
  next
    case (Suc j)
    have "rank_scan (n + 1) rk' (Some k) ks ! j
        = 1 + length (filter (\<lambda>x. x < ks ! j) ((pre @ [k]) @ ks))"
    proof (rule Cons.IH)
      show "sorted ((pre @ [k]) @ ks)" using Cons.prems(1) by simp
      show "j < length ks" using Cons.prems(2) Suc by simp
      show "n + 1 = length (pre @ [k])" using Cons.prems(3) by simp
      show "Some k = (if pre @ [k] = [] then None else Some (last (pre @ [k])))" by simp
      show "rk' = 1 + length (filter (\<lambda>x. x < last (pre @ [k])) (pre @ [k]))"
        using R by simp
    qed
    then show ?thesis using Suc by (simp add: rk'_def[symmetric] Let_def)
  qed
qed

lemma map_fst_rank_over: "map fst (rank_over key part) = sort_key key part"
  by (simp add: rank_over_def Let_def length_rank_scan)

lemma rank_over_mem:
  assumes "(x, rk) \<in> set (rank_over key part)"
  shows "x \<in> set part \<and> rk = 1 + length (filter (\<lambda>y. key y < key x) part)"
proof -
  let ?o = "sort_key key part"
  from assms obtain i where i: "i < length part" "x = ?o ! i"
    "rk = rank_scan 0 0 None (map key ?o) ! i"
    by (auto simp: rank_over_def Let_def in_set_zip length_rank_scan)
  have "rk = 1 + length (filter (\<lambda>k. k < map key ?o ! i) ([] @ map key ?o))"
    unfolding i(3) by (rule rank_scan_nth) (use i in simp_all)
  also have "map key ?o ! i = key x" using i by simp
  also have "length (filter (\<lambda>k. k < key x) ([] @ map key ?o)) = length (filter (\<lambda>y. key y < key x) ?o)"
    by (simp add: filter_map comp_def)
  also have "\<dots> = length (filter (\<lambda>y. key y < key x) part)"
    by (simp add: filter_sort)
  finally have "rk = 1 + length (filter (\<lambda>y. key y < key x) part)" .
  moreover have "x \<in> set part" using i by (metis length_sort nth_mem set_sort)
  ultimately show ?thesis by simp
qed

lemma flow_of_ranked:
  "flow_of \<lparr>q1_location_name = hf_location_name x, hour_slot = hf_hour_slot x,
            vehicle_count = hf_vehicle_count x, rank_within_location = rk\<rparr> = x"
  by (simp add: flow_of_def)

lemma map_flow_of_rank_within:
  "map flow_of (rank_within flow)
     = concat (map (\<lambda>(loc, part). sort_key (\<lambda>x. - int (hf_vehicle_count x)) part)
         (group_by hf_location_name flow))"
  unfolding rank_within_def map_concat
  by (simp add: comp_def case_prod_unfold flow_of_ranked map_fst_rank_over)

lemma mset_flow_of_rank_within: "image_mset flow_of (mset (rank_within flow)) = mset flow"
proof -
  have "mset (map flow_of (rank_within flow))
      = mset (concat (map snd (group_by hf_location_name flow)))"
    unfolding map_flow_of_rank_within mset_concat
    by (simp add: comp_def case_prod_unfold)
  then show ?thesis by (simp add: mset_group_by)
qed

lemma mset_flow_of_peak_ranker: "image_mset flow_of (mset (peak_ranker flow)) = mset flow"
  by (simp add: peak_ranker_def mset_flow_of_rank_within)

lemma rank_within_mem:
  assumes "row \<in> set (rank_within flow)"
  shows "rank_within_location row =
     1 + length (filter (\<lambda>y. hf_location_name y = q1_location_name row \<and>
                             hf_vehicle_count y > vehicle_count row) flow)"
proof -
  let ?key = "\<lambda>x. - int (hf_vehicle_count x)"
  from assms obtain loc x rk where
    mem: "(x, rk) \<in> set (rank_over ?key (filter (\<lambda>y. hf_location_name y = loc) flow))"
    and row: "row = \<lparr>q1_location_name = hf_location_name x, hour_slot = hf_hour_slot x,
            vehicle_count = hf_vehicle_count x, rank_within_location = rk\<rparr>"
    by (auto simp: rank_within_def group_by_def)
  from rank_over_mem[OF mem]
  have x: "hf_location_name x = loc"
    and rk: "rk = 1 + length (filter (\<lambda>y. ?key y < ?key x) (filter (\<lambda>y. hf_location_name y = loc) flow))"
    by auto
  have "filter (\<lambda>y. ?key y < ?key x) (filter (\<lambda>y. hf_location_name y = loc) flow)
      = filter (\<lambda>y. hf_location_name y = loc \<and> hf_vehicle_count y > hf_vehicle_count x) flow"
    by (simp add: conj_commute)
  with rk x show ?thesis by (simp add: row)
qed

lemma length_filter_flow_of:
  assumes "image_mset flow_of (mset rows) = mset flow"
  shows "length (filter (\<lambda>r. P (flow_of r)) rows) = length (filter P flow)"
proof -
  have "length (filter (\<lambda>r. P (flow_of r)) rows) = size (filter_mset P (image_mset flow_of (mset rows)))"
    by (simp add: filter_mset_image_mset flip: size_mset mset_filter)
  also have "\<dots> = length (filter P flow)"
    unfolding assms by (simp flip: size_mset mset_filter)
  finally show ?thesis .
qed

lemma peak_ranker_rank:
  assumes "row \<in> set (peak_ranker flow)"
  shows "rank_within_location row = 1 + outranking (peak_ranker flow) row"
proof -
  from assms have "row \<in> set (rank_within flow)" by (simp add: peak_ranker_def)
  from rank_within_mem[OF this]
  have "rank_within_location row =
     1 + length (filter (\<lambda>y. hf_location_name y = q1_location_name row \<and>
                             hf_vehicle_count y > vehicle_count row) flow)" .
  also have "length (filter (\<lambda>y. hf_location_name y = q1_location_name row \<and>
                             hf_vehicle_count y > vehicle_count row) flow)
      = length (filter (\<lambda>r. hf_location_name (flow_of r) = q1_location_name row \<and>
                             hf_vehicle_count (flow_of r) > vehicle_count row) (peak_ranker flow))"
    by (rule length_filter_flow_of[OF mset_flow_of_peak_ranker, symmetric])
  finally show ?thesis by (simp add: outranking_def flow_of_def)
qed

text \<open>
  Claim C5. The view \<open>hourly_flow\<close> has exactly one row for each pair of a location and an
  hour slot in which some vehicle was observed there, and the row's \<open>vehicle_count\<close> is the
  number of distinct vehicles observed, however often each was read. The hour slot is the
  \<open>record_time\<close> truncated to the hour: a multiple of 3600 seconds, at most the time and
  less than an hour before it. The rows returned by statement 1 carry exactly these
  locations, slots and counts.
\<close>

theorem hourly_flow_counts_distinct_vehicles:
  "distinct (map (\<lambda>row. (hf_location_name row, hf_hour_slot row)) (hourly_flow rs ss))
   \<and> (\<forall>row \<in> set (hourly_flow rs ss).
        vehicles_seen rs ss (hf_location_name row) (hf_hour_slot row) \<noteq> {} \<and>
        hf_vehicle_count row = card (vehicles_seen rs ss (hf_location_name row) (hf_hour_slot row)))
   \<and> (\<forall>loc h. vehicles_seen rs ss loc h \<noteq> {} \<longrightarrow>
        (\<exists>row \<in> set (hourly_flow rs ss). hf_location_name row = loc \<and> hf_hour_slot row = h))
   \<and> (\<forall>t. date_trunc_hour t mod 3600 = 0 \<and> date_trunc_hour t \<le> t \<and> t < date_trunc_hour t + 3600)
   \<and> image_mset flow_of (mset (query1 rs ss)) = mset (hourly_flow rs ss)"
proof (intro conjI ballI allI impI)
  show "distinct (map (\<lambda>row. (hf_location_name row, hf_hour_slot row)) (hourly_flow rs ss))"
    by (simp add: hourly_flow_keys)
next
  fix row assume "row \<in> set (hourly_flow rs ss)"
  then show "vehicles_seen rs ss (hf_location_name row) (hf_hour_slot row) \<noteq> {}"
    "hf_vehicle_count row = card (vehicles_seen rs ss (hf_location_name row) (hf_hour_slot row))"
    by (simp_all add: hourly_flow_mem)
next
  fix loc h assume "vehicles_seen rs ss loc h \<noteq> {}"
  from hourly_flow_complete[OF this]
  show "\<exists>row \<in> set (hourly_flow rs ss). hf_location_name row = loc \<and> hf_hour_slot row = h"
    by auto
next
  fix t :: int
  show "date_trunc_hour t mod 3600 = 0" by (simp add: date_trunc_hour_def)
  show "date_trunc_hour t \<le> t" by (simp add: date_trunc_hour_def)
  show "t < date_trunc_hour t + 3600" by (simp add: date_trunc_hour_def)
next
  show "image_mset flow_of (mset (query1 rs ss)) = mset (hourly_flow rs ss)"
    by (simp add: query1_def mset_flow_of_peak_ranker)
qed

theorem hourly_flow_counts_distinct_vehicles_witness:
  "hourly_flow flow_example one_sensor =
     [\<lparr>hf_location_name = ''A'', hf_hour_slot = 0, hf_vehicle_count = 2\<rparr>,
      \<lparr>hf_location_name = ''A'', hf_hour_slot = 3600, hf_vehicle_count = 1\<rparr>]
   \<and> vehicles_seen flow_example one_sensor ''A'' 0 \<noteq> {}
   \<and> card (vehicles_seen flow_example one_sensor ''A'' 0) = 2
   \<and> card (vehicles_seen flow_example one_sensor ''A'' 3600) = 1"
  using hourly_flow_counts_distinct_vehicles[of flow_example one_sensor]
  by (simp add: hourly_flow_example)

text \<open>
  Claim C2. In the result of the Peak Ranker over any \<open>hourly_flow\<close> table, a row's rank is
  1 plus the number of rows of its location with a larger count. So a row whose count is
  the largest of its location has rank 1, rows of a location with equal counts have equal
  ranks, and when no count of the location lies strictly between those of two rows, the
  lower row's rank is the higher row's rank plus the number of rows tied with the higher
  one. The ranked rows are the table's rows, statement 1 is the Peak Ranker over
  \<open>hourly_flow\<close>, and the counts 10, 50, 20 at hours 0, 1, 2 give hour 1 rank 1, hour 2
  rank 2 and hour 0 rank 3.
\<close>

theorem peak_ranker_competition_ranking:
  "(\<forall>a \<in> set (peak_ranker flow).
       rank_within_location a = 1 + outranking (peak_ranker flow) a)
   \<and> (\<forall>a \<in> set (peak_ranker flow).
        (\<forall>b \<in> set (peak_ranker flow).
           q1_location_name b = q1_location_name a \<longrightarrow> vehicle_count b \<le> vehicle_count a)
        \<longrightarrow> rank_within_location a = 1)
   \<and> (\<forall>a \<in> set (peak_ranker flow). \<forall>b \<in> set (peak_ranker flow).
        q1_location_name a = q1_location_name b \<and> vehicle_count a = vehicle_count b
        \<longrightarrow> rank_within_location a = rank_within_location b)
   \<and> (\<forall>a \<in> set (peak_ranker flow). \<forall>b \<in> set (peak_ranker flow).
        q1_location_name a = q1_location_name b \<and> vehicle_count b < vehicle_count a \<and>
        (\<forall>c \<in> set (peak_ranker flow). q1_location_name c = q1_location_name a \<longrightarrow>
           \<not> (vehicle_count b < vehicle_count c \<and> vehicle_count c < vehicle_count a))
        \<longrightarrow> rank_within_location b = rank_within_location a + tied (peak_ranker flow) a)
   \<and> image_mset flow_of (mset (peak_ranker flow)) = mset flow
   \<and> query1 rs ss = peak_ranker (hourly_flow rs ss)
   \<and> map (\<lambda>row. (hour_slot row, rank_within_location row)) (peak_ranker peak_example)
        = [(3600, 1), (7200, 2), (0, 3)]"
proof (intro conjI ballI impI)
  let ?V = "peak_ranker flow"
  fix a assume a: "a \<in> set ?V"
  show "rank_within_location a = 1 + outranking ?V a" by (rule peak_ranker_rank[OF a])
  {
    assume top: "\<forall>b \<in> set ?V. q1_location_name b = q1_location_name a \<longrightarrow> vehicle_count b \<le> vehicle_count a"
    then have "filter (\<lambda>x. q1_location_name x = q1_location_name a \<and>
                          vehicle_count x > vehicle_count a) ?V = []"
      by (auto simp: filter_empty_conv)
    then show "rank_within_location a = 1"
      by (simp add: peak_ranker_rank[OF a] outranking_def)
  }
  fix b assume b: "b \<in> set ?V"
  {
    assume "q1_location_name a = q1_location_name b \<and> vehicle_count a = vehicle_count b"
    then show "rank_within_location a = rank_within_location b"
      by (simp add: peak_ranker_rank[OF a] peak_ranker_rank[OF b] outranking_def)
  }
  {
    assume h: "q1_location_name a = q1_location_name b \<and> vehicle_count b < vehicle_count a \<and>
        (\<forall>c \<in> set ?V. q1_location_name c = q1_location_name a \<longrightarrow>
           \<not> (vehicle_count b < vehicle_count c \<and> vehicle_count c < vehicle_count a))"
    have "outranking ?V b = outranking ?V a + tied ?V a"
      unfolding outranking_def tied_def
      by (rule length_filter_split) (use h in auto)
    then show "rank_within_location b = rank_within_location a + tied ?V a"
      by (simp add: peak_ranker_rank[OF a] peak_ranker_rank[OF b])
  }
next
  show "image_mset flow_of (mset (peak_ranker flow)) = mset flow"
    by (rule mset_flow_of_peak_ranker)
next
  show "query1 rs ss = peak_ranker (hourly_flow rs ss)" by (simp add: query1_def)
next
  show "map (\<lambda>row. (hour_slot row, rank_within_location row)) (peak_ranker peak_example)
        = [(3600, 1), (7200, 2), (0, 3)]"
    by (simp add: peak_ranker_example)
qed

theorem peak_ranker_competition_ranking_witness:
  "peak_ranker peak_example =
     [\<lparr>q1_location_name = ''A'', hour_slot = 3600, vehicle_count = 50, rank_within_location = 1\<rparr>,
      \<lparr>q1_location_name = ''A'', hour_slot = 7200, vehicle_count = 20, rank_within_location = 2\<rparr>,
      \<lparr>q1_location_name = ''A'', hour_slot = 0, vehicle_count = 10, rank_within_location = 3\<rparr>]
   \<and> outranking (peak_ranker peak_example)
        \<lparr>q1_location_name = ''A'', hour_slot = 0, vehicle_count = 10, rank_within_location = 3\<rparr> = 2
   \<and> tied (peak_ranker peak_example)
        \<lparr>q1_location_name = ''A'', hour_slot = 7200, vehicle_count = 20, rank_within_location = 2\<rparr> = 1"
  using peak_ranker_competition_ranking[of peak_example]
  by (simp add: peak_ranker_example outranking_def tied_def)

section \<open>The dispersion outlier classifier\<close>

lemma percentile_cont_interpolate:
  "xs \<noteq> [] \<Longrightarrow> percentile_cont p xs = Some (interpolate (sort xs) (p * real (length xs - 1)))"
  by (simp add: percentile_cont_def interpolate_def Let_def)

lemma position_bounds:
  assumes "0 \<le> x" "x \<le> real (n - 1)" "0 < n"
  shows "nat \<lfloor>x\<rfloor> \<le> nat \<lceil>x\<rceil>" "nat \<lceil>x\<rceil> < n" "real (nat \<lfloor>x\<rfloor>) \<le> x" "x \<le> real (nat \<lceil>x\<rceil>)"
proof -
  show "nat \<lfloor>x\<rfloor> \<le> nat \<lceil>x\<rceil>" by (simp add: floor_le_ceiling nat_mono)
  have "\<lceil>x\<rceil> \<le> int (n - 1)" using assms(2) by (simp add: ceiling_le_iff)
  then show "nat \<lceil>x\<rceil> < n" using assms(3) by linarith
  show "real (nat \<lfloor>x\<rfloor>) \<le> x" using assms(1) by simp
  show "x \<le> real (nat \<lceil>x\<rceil>)" using assms(1)
    by (metis le_of_int_ceiling of_int_of_nat_eq of_nat_nat ceiling_mono ceiling_zero)
qed

lemma interpolate_between:
  assumes "sorted s" "0 \<le> x" "x \<le> real (length s - 1)" "s \<noteq> []"
  shows "s ! nat \<lfloor>x\<rfloor> \<le> interpolate s x" "interpolate s x \<le> s ! nat \<lceil>x\<rceil>"
proof -
  let ?lo = "nat \<lfloor>x\<rfloor>" and ?hi = "nat \<lceil>x\<rceil>"
  from assms(4) have n: "0 < length s" by simp
  note b = position_bounds[OF assms(2,3) n]
  have le: "s ! ?lo \<le> s ! ?hi" using assms(1) b(1,2) by (simp add: sorted_nth_mono)
  have f0: "0 \<le> x - real ?lo" using b(3) by simp
  have f1: "x - real ?lo \<le> 1"
  proof -
    have "x - 1 < real_of_int \<lfloor>x\<rfloor>" by linarith
    moreover have "real_of_int \<lfloor>x\<rfloor> = real ?lo" using assms(2) by simp
    ultimately show ?thesis by simp
  qed
  have d: "0 \<le> s ! ?hi - s ! ?lo" using le by simp
  have "0 \<le> (x - real ?lo) * (s ! ?hi - s ! ?lo)" using f0 d by simp
  then show "s ! ?lo \<le> interpolate s x" by (simp add: interpolate_def)
  have "(x - real ?lo) * (s ! ?hi - s ! ?lo) \<le> 1 * (s ! ?hi - s ! ?lo)"
    using f1 d by (rule mult_right_mono)
  then show "interpolate s x \<le> s ! ?hi" using le by (simp add: interpolate_def)
qed

lemma interpolate_mono:
  assumes "sorted s" "0 \<le> a" "a \<le> b" "b \<le> real (length s - 1)" "s \<noteq> []"
  shows "interpolate s a \<le> interpolate s b"
proof (cases "\<lceil>a\<rceil> \<le> \<lfloor>b\<rfloor>")
  case True
  from assms have a: "a \<le> real (length s - 1)" and b: "0 \<le> b" by simp_all
  from assms(5) have n: "0 < length s" by simp
  have "nat \<lceil>a\<rceil> \<le> nat \<lfloor>b\<rfloor>" using True by (rule nat_mono)
  moreover have "nat \<lfloor>b\<rfloor> < length s"
    using position_bounds(1,2)[OF b assms(4) n] by simp
  ultimately have "s ! nat \<lceil>a\<rceil> \<le> s ! nat \<lfloor>b\<rfloor>"
    using assms(1) by (simp add: sorted_nth_mono)
  with interpolate_between(2)[OF assms(1,2) a assms(5)] interpolate_between(1)[OF assms(1) b assms(4,5)]
  show ?thesis by simp
next
  case False
  from assms have a: "a \<le> real (length s - 1)" and b: "0 \<le> b" by simp_all
  from assms(5) have n: "0 < length s" by simp
  have fl: "\<lfloor>a\<rfloor> \<le> \<lfloor>b\<rfloor>" using assms(3) by (rule floor_mono)
  have "\<lceil>a\<rceil> \<le> \<lfloor>a\<rfloor> + 1" by linarith
  with False fl have eq: "\<lfloor>b\<rfloor> = \<lfloor>a\<rfloor>" and ca: "\<lceil>a\<rceil> = \<lfloor>a\<rfloor> + 1" by linarith+
  have "\<lceil>b\<rceil> \<le> \<lfloor>b\<rfloor> + 1" by linarith
  moreover have "\<lceil>a\<rceil> \<le> \<lceil>b\<rceil>" using assms(3) by (rule ceiling_mono)
  ultimately have cb: "\<lceil>b\<rceil> = \<lfloor>a\<rfloor> + 1" using ca eq by linarith
  have f0: "0 \<le> \<lfloor>a\<rfloor>" using assms(2) by simp
  let ?m = "nat \<lfloor>a\<rfloor>"
  have idx: "nat \<lfloor>b\<rfloor> = ?m" "nat \<lceil>a\<rceil> = Suc ?m" "nat \<lceil>b\<rceil> = Suc ?m"
    using eq ca cb f0 by (simp_all add: nat_add_distrib)
  have "Suc ?m < length s" using position_bounds(2)[OF assms(2) a n] idx by simp
  then have "s ! ?m \<le> s ! Suc ?m" using assms(1) by (simp add: sorted_nth_mono)
  then have "(a - real ?m) * (s ! Suc ?m - s ! ?m) \<le> (b - real ?m) * (s ! Suc ?m - s ! ?m)"
    using assms(3) by (intro mult_right_mono) simp_all
  then show ?thesis by (simp add: interpolate_def idx)
qed

lemma quartiles_ordered:
  assumes "xs \<noteq> []"
  shows "\<exists>lo hi. percentile_cont (1 / 4) xs = Some lo \<and> percentile_cont (3 / 4) xs = Some hi \<and> lo \<le> hi"
proof -
  let ?n = "real (length xs - 1)"
  have ne: "sort xs \<noteq> []" using assms by (metis length_sort length_0_conv)
  have "interpolate (sort xs) (1 / 4 * ?n) \<le> interpolate (sort xs) (3 / 4 * ?n)"
    by (rule interpolate_mono) (use ne in simp_all)
  then show ?thesis by (simp add: percentile_cont_interpolate[OF assms])
qed

lemma percentile_cont_constant:
  assumes "set xs = {c}" "0 \<le> p" "p \<le> 1"
  shows "percentile_cont p xs = Some c"
proof -
  from assms(1) have ne: "xs \<noteq> []" by auto
  then have n: "0 < length (sort xs)" by simp
  let ?x = "p * real (length xs - 1)"
  have x0: "0 \<le> ?x" using assms(2) by simp
  have "?x \<le> 1 * real (length xs - 1)" using assms(3) by (intro mult_right_mono) simp_all
  then have x1: "?x \<le> real (length (sort xs) - 1)" by simp
  note b = position_bounds[OF x0 x1 n]
  have "sort xs ! i = c" if "i < length xs" for i
  proof -
    from that have "sort xs ! i \<in> set (sort xs)" by (intro nth_mem) simp
    with assms(1) show ?thesis by simp
  qed
  note const = this
  have i2: "nat \<lceil>?x\<rceil> < length xs" using b(2) unfolding length_sort .
  with b(1) have i1: "nat \<lfloor>?x\<rfloor> < length xs" by (rule le_less_trans)
  have "sort xs ! nat \<lfloor>?x\<rfloor> = c" "sort xs ! nat \<lceil>?x\<rceil> = c"
    using const[OF i1] const[OF i2] .
  then show ?thesis by (simp add: percentile_cont_interpolate[OF ne] interpolate_def)
qed

lemma percentile_cont_mset:
  assumes "mset xs = mset ys"
  shows "percentile_cont p xs = percentile_cont p ys"
proof -
  from assms have "sort xs = sort ys" by (metis properties_for_sort sorted_sort mset_sort)
  moreover from assms have "length xs = length ys" by (rule mset_eq_length)
  moreover from assms have "xs = [] \<longleftrightarrow> ys = []" by (metis mset_zero_iff)
  ultimately show ?thesis by (simp add: percentile_cont_def)
qed

lemma speed_stats_of_sensor:
  assumes d: "distinct (map s_sensor_id ss)" and rs: "(r, s) \<in> set (joined rs ss)"
  shows "filter (\<lambda>q. ss_sensor_id q = s_sensor_id s) (speed_stats rs ss) =
     [\<lparr>ss_sensor_id = s_sensor_id s, ss_location_name = location_name s,
       q1 = percentile_cont (1 / 4) (speed_history rs (s_sensor_id s)),
       q3 = percentile_cont (3 / 4) (speed_history rs (s_sensor_id s))\<rparr>]"
proof -
  let ?J = "joined rs ss"
  let ?key = "\<lambda>(r, s). (s_sensor_id s, location_name s)"
  let ?keys = "remdups (map ?key ?J)"
  let ?k0 = "(s_sensor_id s, location_name s)"
  let ?H = "\<lambda>k. \<lparr>ss_sensor_id = fst k, ss_location_name = snd k,
      q1 = percentile_cont (1 / 4) (map (\<lambda>(r, s). speed r) (filter (\<lambda>x. ?key x = k) ?J)),
      q3 = percentile_cont (3 / 4) (map (\<lambda>(r, s). speed r) (filter (\<lambda>x. ?key x = k) ?J))\<rparr>"
  from rs have s: "s \<in> set ss" by (simp add: set_joined)
  have stats: "speed_stats rs ss = map ?H ?keys"
    by (simp add: speed_stats_def group_by_def comp_def)
  have same: "s_sensor_id s' = s_sensor_id s \<longleftrightarrow> ?key (r', s') = ?k0"
    if "(r', s') \<in> set ?J" for r' s'
  proof -
    from that have "s' \<in> set ss" by (simp add: set_joined)
    then show ?thesis using sensor_unique[OF d s] by auto
  qed
  have "filter (\<lambda>k. fst k = s_sensor_id s) ?keys = filter (\<lambda>k. k = ?k0) ?keys"
  proof (rule filter_cong[OF refl])
    fix k assume "k \<in> set ?keys"
    then obtain r' s' where m: "(r', s') \<in> set ?J" and k: "k = ?key (r', s')" by auto
    from same[OF m] show "(fst k = s_sensor_id s) = (k = ?k0)" by (simp add: k)
  qed
  also have "\<dots> = [?k0]"
  proof -
    have "?k0 \<in> set ?keys" using rs by force
    moreover have "distinct (map (\<lambda>k. k) ?keys)" by simp
    ultimately show ?thesis by (rule filter_key_unique[rotated])
  qed
  finally have keys: "filter (\<lambda>k. fst k = s_sensor_id s) ?keys = [?k0]" .
  have "filter (\<lambda>x. ?key x = ?k0) ?J = filter (\<lambda>(r', s'). s_sensor_id s' = s_sensor_id s) ?J"
    by (rule filter_cong[OF refl]) (use same in auto)
  also have "\<dots> = map (\<lambda>r. (r, s)) (filter (\<lambda>r. r_sensor_id r = s_sensor_id s) rs)"
    by (rule sensor_partition[OF d s])
  finally have "map (\<lambda>(r, s). speed r) (filter (\<lambda>x. ?key x = ?k0) ?J) = speed_history rs (s_sensor_id s)"
    by (simp add: speed_history_def comp_def)
  then have H: "?H ?k0 = \<lparr>ss_sensor_id = s_sensor_id s, ss_location_name = location_name s,
       q1 = percentile_cont (1 / 4) (speed_history rs (s_sensor_id s)),
       q3 = percentile_cont (3 / 4) (speed_history rs (s_sensor_id s))\<rparr>"
    by simp
  have "filter (\<lambda>q. ss_sensor_id q = s_sensor_id s) (map ?H ?keys)
      = map ?H (filter (\<lambda>k. fst k = s_sensor_id s) ?keys)"
    by (simp add: filter_map comp_def)
  with keys H show ?thesis unfolding stats by simp
qed

lemma query2_rows:
  assumes d: "distinct (map s_sensor_id ss)"
  shows "mset (query2 rs ss) = image_mset (\<lambda>(r, s). outlier_spec rs r s) (mset (joined rs ss))"
proof -
  let ?J = "joined rs ss"
  let ?mk = "\<lambda>r s q. \<lparr>q2_sensor_id = r_sensor_id r, q2_location_name = location_name s,
         q2_record_time = record_time r, q2_speed = speed r,
         q2_traffic_status = outlier_status (speed r) (q1 q) (q3 q)\<rparr>"
  have inner: "concat (map (\<lambda>q. if ss_sensor_id q = k then [f q] else []) qs)
      = map f (filter (\<lambda>q. ss_sensor_id q = k) qs)" for k qs and f :: "speed_stats_row \<Rightarrow> outlier_row"
    by (induction qs) simp_all
  have one: "map (?mk r s) (filter (\<lambda>q. ss_sensor_id q = s_sensor_id s) (speed_stats rs ss))
      = [outlier_spec rs r s]" if "(r, s) \<in> set ?J" for r s
  proof -
    from that have e: "r_sensor_id r = s_sensor_id s" by (simp add: set_joined)
    show ?thesis unfolding speed_stats_of_sensor[OF d that] by (simp add: outlier_spec_def e)
  qed
  have "concat (map (\<lambda>(r, s). map (?mk r s)
            (filter (\<lambda>q. ss_sensor_id q = s_sensor_id s) (speed_stats rs ss))) ?J)
      = concat (map (\<lambda>(r, s). [outlier_spec rs r s]) ?J)"
    by (rule arg_cong[where f = concat], rule map_cong[OF refl]) (use one in auto)
  also have "\<dots> = map (\<lambda>(r, s). outlier_spec rs r s) ?J"
  proof -
    have "concat (map (\<lambda>(r, s). [outlier_spec rs r s]) xs) = map (\<lambda>(r, s). outlier_spec rs r s) xs"
      for xs by (induction xs) auto
    then show ?thesis .
  qed
  finally show ?thesis
    by (simp add: query2_def inner case_prod_unfold)
qed

lemma speed_history_mset:
  "mset rs' = mset rs \<Longrightarrow> mset (speed_history rs' sid) = mset (speed_history rs sid)"
  by (simp add: speed_history_def)

lemma outlier_spec_mset:
  assumes "mset rs' = mset rs"
  shows "outlier_spec rs' r s = outlier_spec rs r s"
  unfolding outlier_spec_def
  using percentile_cont_mset[OF speed_history_mset[OF assms]] by simp

lemma outlier_status_cases:
  assumes "lo \<le> hi"
  shows "outlier_status v (Some lo) (Some hi) = ''Possible slowdown'' \<longleftrightarrow> v < lo - 3 / 2 * (hi - lo)"
    and "outlier_status v (Some lo) (Some hi) = ''Abnormal high speed'' \<longleftrightarrow> v > hi + 3 / 2 * (hi - lo)"
    and "outlier_status v (Some lo) (Some hi) = ''Normal''
           \<longleftrightarrow> lo - 3 / 2 * (hi - lo) \<le> v \<and> v \<le> hi + 3 / 2 * (hi - lo)"
proof -
  have *: "\<not> (v < lo - 3 / 2 * (hi - lo) \<and> v > hi + 3 / 2 * (hi - lo))"
    using assms by argo
  show "outlier_status v (Some lo) (Some hi) = ''Possible slowdown'' \<longleftrightarrow> v < lo - 3 / 2 * (hi - lo)"
    by (simp add: outlier_status_def)
  show "outlier_status v (Some lo) (Some hi) = ''Abnormal high speed'' \<longleftrightarrow> v > hi + 3 / 2 * (hi - lo)"
    using * by (auto simp add: outlier_status_def)
  show "outlier_status v (Some lo) (Some hi) = ''Normal''
           \<longleftrightarrow> lo - 3 / 2 * (hi - lo) \<le> v \<and> v \<le> hi + 3 / 2 * (hi - lo)"
    by (auto simp add: outlier_status_def)
qed

lemma query2_outlier_example:
  "query2 outlier_example one_sensor =
     [\<lparr>q2_sensor_id = 1, q2_location_name = ''A'', q2_record_time = 1, q2_speed = 1,
       q2_traffic_status = ''Possible slowdown''\<rparr>,
      \<lparr>q2_sensor_id = 1, q2_location_name = ''A'', q2_record_time = 2, q2_speed = 12,
       q2_traffic_status = ''Normal''\<rparr>,
      \<lparr>q2_sensor_id = 1, q2_location_name = ''A'', q2_record_time = 3, q2_speed = 11,
       q2_traffic_status = ''Normal''\<rparr>,
      \<lparr>q2_sensor_id = 1, q2_location_name = ''A'', q2_record_time = 4, q2_speed = 13,
       q2_traffic_status = ''Normal''\<rparr>,
      \<lparr>q2_sensor_id = 1, q2_location_name = ''A'', q2_record_time = 5, q2_speed = 100,
       q2_traffic_status = ''Abnormal high speed''\<rparr>,
      \<lparr>q2_sensor_id = 1, q2_location_name = ''A'', q2_record_time = 6, q2_speed = 14,
       q2_traffic_status = ''Normal''\<rparr>]"
  by (simp add: query2_def speed_stats_def group_by_def joined_def percentile_cont_def
      outlier_status_def outlier_example_def one_sensor_def)

lemma outlier_example_quartiles:
  "percentile_cont (1 / 4) (speed_history outlier_example 1) = Some (45 / 4)"
  "percentile_cont (3 / 4) (speed_history outlier_example 1) = Some (55 / 4)"
  by (simp_all add: percentile_cont_def speed_history_def outlier_example_def)

lemma query2_row_cases:
  assumes d: "distinct (map s_sensor_id ss)" and row: "row \<in> set (query2 rs ss)"
  shows "\<exists>lo hi.
       percentile_cont (1 / 4) (speed_history rs (q2_sensor_id row)) = Some lo \<and>
       percentile_cont (3 / 4) (speed_history rs (q2_sensor_id row)) = Some hi \<and>
       (q2_traffic_status row = ''Possible slowdown'' \<longleftrightarrow> q2_speed row < lo - 3 / 2 * (hi - lo)) \<and>
       (q2_traffic_status row = ''Abnormal high speed'' \<longleftrightarrow> q2_speed row > hi + 3 / 2 * (hi - lo)) \<and>
       (q2_traffic_status row = ''Normal'' \<longleftrightarrow>
          lo - 3 / 2 * (hi - lo) \<le> q2_speed row \<and> q2_speed row \<le> hi + 3 / 2 * (hi - lo)) \<and>
       ((\<exists>c. set (speed_history rs (q2_sensor_id row)) = {c}) \<longrightarrow>
          hi - lo = 0 \<and> q2_traffic_status row = ''Normal'')"
proof -
  from row have "row \<in># mset (query2 rs ss)" by simp
  then obtain r s where J: "(r, s) \<in> set (joined rs ss)" and spec: "row = outlier_spec rs r s"
    unfolding query2_rows[OF d] by auto
  let ?H = "speed_history rs (r_sensor_id r)"
  from J have "r \<in> set rs" by (simp add: set_joined)
  then have mem: "speed r \<in> set ?H" by (simp add: speed_history_def)
  then have "?H \<noteq> []" by auto
  from quartiles_ordered[OF this] obtain lo hi where
    q: "percentile_cont (1 / 4) ?H = Some lo" "percentile_cont (3 / 4) ?H = Some hi" and le: "lo \<le> hi"
    by blast
  have sid: "q2_sensor_id row = r_sensor_id r" and v: "q2_speed row = speed r"
    and st: "q2_traffic_status row = outlier_status (speed r) (Some lo) (Some hi)"
    by (simp_all add: spec outlier_spec_def q)
  have const: "hi - lo = 0 \<and> q2_traffic_status row = ''Normal''" if "set ?H = {c}" for c
  proof -
    from percentile_cont_constant[OF that, of "1 / 4"] percentile_cont_constant[OF that, of "3 / 4"] q
    have "lo = c" "hi = c" by simp_all
    moreover from mem that have "speed r = c" by simp
    ultimately show ?thesis by (simp add: st outlier_status_def)
  qed
  note c = outlier_status_cases[OF le, of "speed r"]
  show ?thesis
  proof (intro exI conjI impI)
    show "percentile_cont (1 / 4) (speed_history rs (q2_sensor_id row)) = Some lo"
      unfolding sid by (rule q(1))
    show "percentile_cont (3 / 4) (speed_history rs (q2_sensor_id row)) = Some hi"
      unfolding sid by (rule q(2))
    show "q2_traffic_status row = ''Possible slowdown'' \<longleftrightarrow> q2_speed row < lo - 3 / 2 * (hi - lo)"
      unfolding v st by (rule c(1))
    show "q2_traffic_status row = ''Abnormal high speed'' \<longleftrightarrow> q2_speed row > hi + 3 / 2 * (hi - lo)"
      unfolding v st by (rule c(2))
    show "q2_traffic_status row = ''Normal'' \<longleftrightarrow>
          lo - 3 / 2 * (hi - lo) \<le> q2_speed row \<and> q2_speed row \<le> hi + 3 / 2 * (hi - lo)"
      unfolding v st by (rule c(3))
    assume "\<exists>c. set (speed_history rs (q2_sensor_id row)) = {c}"
    then obtain c where "set ?H = {c}" unfolding sid by blast
    from const[OF this] show "hi - lo = 0" "q2_traffic_status row = ''Normal''" by simp_all
  qed
qed

text \<open>
  Claim C1. When \<open>sensor_id\<close> is a key of \<open>sensors\<close>: every row of the outlier view has
  the status \<open>Possible slowdown\<close> exactly when its speed is below \<open>q1 - 1.5 * IQR\<close>,
  \<open>Abnormal high speed\<close> exactly when it is above \<open>q3 + 1.5 * IQR\<close>, and \<open>Normal\<close> exactly
  when it is neither, where \<open>q1\<close> and \<open>q3\<close> are \<open>PERCENTILE_CONT\<close> at 0.25 and 0.75 of all
  speeds read by the row's sensor and \<open>IQR = q3 - q1\<close>; when that sensor has a single
  distinct speed, \<open>IQR\<close> is 0 and the row is \<open>Normal\<close>. Every joined reading has exactly
  one row, and reordering the rows of either table leaves the classified rows the same.
\<close>

theorem outlier_classification:
  assumes d: "distinct (map s_sensor_id ss)"
  shows "(\<forall>row \<in> set (query2 rs ss). \<exists>lo hi.
       percentile_cont (1 / 4) (speed_history rs (q2_sensor_id row)) = Some lo \<and>
       percentile_cont (3 / 4) (speed_history rs (q2_sensor_id row)) = Some hi \<and>
       (q2_traffic_status row = ''Possible slowdown'' \<longleftrightarrow> q2_speed row < lo - 3 / 2 * (hi - lo)) \<and>
       (q2_traffic_status row = ''Abnormal high speed'' \<longleftrightarrow> q2_speed row > hi + 3 / 2 * (hi - lo)) \<and>
       (q2_traffic_status row = ''Normal'' \<longleftrightarrow>
          lo - 3 / 2 * (hi - lo) \<le> q2_speed row \<and> q2_speed row \<le> hi + 3 / 2 * (hi - lo)) \<and>
       ((\<exists>c. set (speed_history rs (q2_sensor_id row)) = {c}) \<longrightarrow>
          hi - lo = 0 \<and> q2_traffic_status row = ''Normal''))
   \<and> image_mset (\<lambda>row. (q2_sensor_id row, q2_location_name row, q2_record_time row, q2_speed row))
        (mset (query2 rs ss))
      = image_mset (\<lambda>(r, s). (r_sensor_id r, location_name s, record_time r, speed r))
        (mset (joined rs ss))
   \<and> (\<forall>rs' ss'. mset rs' = mset rs \<and> mset ss' = mset ss \<longrightarrow>
        mset (query2 rs' ss') = mset (query2 rs ss))"
proof (intro conjI ballI allI impI)
  fix row assume "row \<in> set (query2 rs ss)"
  then show "\<exists>lo hi.
       percentile_cont (1 / 4) (speed_history rs (q2_sensor_id row)) = Some lo \<and>
       percentile_cont (3 / 4) (speed_history rs (q2_sensor_id row)) = Some hi \<and>
       (q2_traffic_status row = ''Possible slowdown'' \<longleftrightarrow> q2_speed row < lo - 3 / 2 * (hi - lo)) \<and>
       (q2_traffic_status row = ''Abnormal high speed'' \<longleftrightarrow> q2_speed row > hi + 3 / 2 * (hi - lo)) \<and>
       (q2_traffic_status row = ''Normal'' \<longleftrightarrow>
          lo - 3 / 2 * (hi - lo) \<le> q2_speed row \<and> q2_speed row \<le> hi + 3 / 2 * (hi - lo)) \<and>
       ((\<exists>c. set (speed_history rs (q2_sensor_id row)) = {c}) \<longrightarrow>
          hi - lo = 0 \<and> q2_traffic_status row = ''Normal'')"
    by (rule query2_row_cases[OF d])
next
  show "image_mset (\<lambda>row. (q2_sensor_id row, q2_location_name row, q2_record_time row, q2_speed row))
        (mset (query2 rs ss))
      = image_mset (\<lambda>(r, s). (r_sensor_id r, location_name s, record_time r, speed r))
        (mset (joined rs ss))"
    unfolding query2_rows[OF d]
    by (simp add: image_mset.compositionality comp_def case_prod_unfold outlier_spec_def)
next
  fix rs' ss' assume "mset rs' = mset rs \<and> mset ss' = mset ss"
  then have m: "mset rs' = mset rs" "mset ss' = mset ss" by simp_all
  from m(2) have "mset (map s_sensor_id ss') = mset (map s_sensor_id ss)" by simp
  from mset_eq_imp_distinct_iff[OF this] d have d': "distinct (map s_sensor_id ss')" by simp
  have J: "mset (joined rs' ss') = mset (joined rs ss)" by (simp add: mset_joined m)
  have "(\<lambda>(r, s). outlier_spec rs' r s) = (\<lambda>(r, s). outlier_spec rs r s)"
    by (simp add: outlier_spec_mset[OF m(1)])
  then show "mset (query2 rs' ss') = mset (query2 rs ss)"
    by (simp add: query2_rows[OF d] query2_rows[OF d'] J)
qed

theorem outlier_classification_witness:
  "distinct (map s_sensor_id one_sensor)
   \<and> percentile_cont (1 / 4) (speed_history outlier_example 1) = Some (45 / 4)
   \<and> percentile_cont (3 / 4) (speed_history outlier_example 1) = Some (55 / 4)
   \<and> map (\<lambda>row. (q2_speed row, q2_traffic_status row)) (query2 outlier_example one_sensor)
        = [(1, ''Possible slowdown''), (12, ''Normal''), (11, ''Normal''), (13, ''Normal''),
           (100, ''Abnormal high speed''), (14, ''Normal'')]
   \<and> mset (query2 (rev outlier_example) one_sensor) = mset (query2 outlier_example one_sensor)"
proof -
  have d: "distinct (map s_sensor_id one_sensor)" by (simp add: one_sensor_def)
  have "mset (rev outlier_example) = mset outlier_example" by simp
  with outlier_classification[OF d, of outlier_example]
  have "mset (query2 (rev outlier_example) one_sensor) = mset (query2 outlier_example one_sensor)"
    by blast
  with d outlier_example_quartiles show ?thesis
    by (simp add: query2_outlier_example)
qed

section \<open>The rolling average\<close>

lemma sorts_by_stable_sort: "sorts_by (\<lambda>(r, s). record_time r) stable_sort"
  by (simp add: sorts_by_def stable_sort_def)

lemma sorted_rev_negated:
  fixes f :: "'a \<Rightarrow> int"
  shows "sorted (map (\<lambda>x. - f x) xs) \<Longrightarrow> sorted (rev (map f xs))"
  by (induction xs) (auto simp: sorted_append)

lemma sorts_by_reversing_sort: "sorts_by (\<lambda>(r, s). record_time r) reversing_sort"
proof -
  have "sorted (map (\<lambda>(r, s). record_time r) (rev (sort_key (\<lambda>(r, s). - record_time r) xs)))"
    for xs :: "(reading \<times> sensor) list"
  proof -
    have "sorted (map (\<lambda>x. - (case x of (r, s) \<Rightarrow> record_time r))
            (sort_key (\<lambda>x. - (case x of (r, s) \<Rightarrow> record_time r)) xs))"
      by (rule sorted_sort_key)
    from sorted_rev_negated[OF this] show ?thesis
      by (simp add: rev_map case_prod_unfold)
  qed
  then show ?thesis by (simp add: sorts_by_def reversing_sort_def)
qed

lemma sorts_by_Nil: "sorts_by key srt \<Longrightarrow> srt [] = []"
  unfolding sorts_by_def by (metis mset_zero_iff)

lemma sorts_by_unique:
  assumes "sorts_by key srt" "distinct (map key xs)"
  shows "srt xs = sort_key key xs"
proof -
  from assms(1) have m: "mset (srt xs) = mset xs" and s: "sorted (map key (srt xs))"
    by (simp_all add: sorts_by_def)
  from m have "mset (map key (srt xs)) = mset (map key xs)" by simp
  from mset_eq_imp_distinct_iff[OF this] assms(2) have d: "distinct (map key (srt xs))" by simp
  have "sort_key key xs = srt xs"
  proof (rule properties_for_sort_key[OF m _ s])
    fix k assume k: "k \<in> set (srt xs)"
    then have k': "k \<in> set xs" using m by (metis set_mset_mset)
    have "filter (\<lambda>x. key x = key k) (srt xs) = [k]" by (rule filter_key_unique[OF d k])
    moreover have "filter (\<lambda>x. key x = key k) xs = [k]" by (rule filter_key_unique[OF assms(2) k'])
    ultimately show "filter (\<lambda>x. key k = key x) (srt xs) = filter (\<lambda>x. key k = key x) xs"
      by (simp add: eq_commute[of "key k"])
  qed
  then show ?thesis by simp
qed

lemma frame_nth:
  assumes "i < length xs"
  shows "frame_5_preceding xs i = map (\<lambda>j. xs ! j) [i - 5..<i + 1]"
proof -
  have "drop (i - 5) (take (i + 1) (map (\<lambda>j. xs ! j) [0..<length xs]))
      = map (\<lambda>j. xs ! j) [i - 5..<i + 1]"
    using assms unfolding take_map drop_map by simp
  then show ?thesis by (simp add: frame_5_preceding_def map_nth)
qed

lemma rolling_avg_of_ordered:
  assumes o: "srt part = map (\<lambda>r. (r, s)) h"
  shows "rolling_avg srt part = rolling_rows s h"
proof -
  have "avg (map (\<lambda>(r, s). speed r) (frame_5_preceding (map (\<lambda>r. (r, s)) h) i))
      = Some (window_mean h i)" if "i < length h" for i
  proof -
    from that have "i < length (map (\<lambda>r. (r, s)) h)" by simp
    from frame_nth[OF this] that
    have "map (\<lambda>(r, s). speed r) (frame_5_preceding (map (\<lambda>r. (r, s)) h) i)
        = map (\<lambda>j. speed (h ! j)) [i - 5..<i + 1]"
      by simp
    then show ?thesis by (simp add: avg_def window_mean_def)
  qed
  then show ?thesis
    unfolding rolling_avg_def o Let_def rolling_rows_def by simp
qed

lemma sorted_sensor_partition:
  assumes srt: "sorts_by (\<lambda>(r, s). record_time r) srt"
  shows "\<exists>h. srt (map (\<lambda>r. (r, s)) xs) = map (\<lambda>r. (r, s)) h \<and> mset h = mset xs
           \<and> sorted (map record_time h)"
proof -
  let ?P = "map (\<lambda>r. (r, s)) xs"
  let ?O = "srt ?P"
  from srt have m: "mset ?O = mset ?P" and so: "sorted (map (\<lambda>(r, s). record_time r) ?O)"
    by (simp_all add: sorts_by_def)
  from m have "set ?O = set ?P" by (metis set_mset_mset)
  then have snd: "\<forall>x \<in> set ?O. snd x = s" by auto
  then have "map (\<lambda>r. (r, s)) (map fst ?O) = ?O"
    by (intro map_idI[of "srt (map (\<lambda>r. (r, s)) xs)", THEN trans[rotated]]) (auto simp: comp_def)
  moreover have "mset (map fst ?O) = mset xs"
  proof -
    have "mset (map fst ?O) = image_mset fst (mset ?P)" using m by (metis mset_map)
    then show ?thesis by (simp add: image_mset.compositionality comp_def)
  qed
  moreover have "sorted (map record_time (map fst ?O))"
    using so by (simp add: comp_def case_prod_unfold)
  ultimately show ?thesis by metis
qed

lemma distinct_times_of_sensor:
  "distinct (map (\<lambda>r. (r_sensor_id r, record_time r)) rs) \<Longrightarrow>
     distinct (map record_time (filter (\<lambda>r. r_sensor_id r = sid) rs))"
proof (induction rs)
  case Nil
  then show ?case by simp
next
  case (Cons a rs)
  then have IH: "distinct (map record_time (filter (\<lambda>r. r_sensor_id r = sid) rs))" by simp
  from Cons.prems have "(r_sensor_id a, record_time a) \<notin> (\<lambda>r. (r_sensor_id r, record_time r)) ` set rs"
    by simp
  then have "\<forall>r \<in> set rs. r_sensor_id r = r_sensor_id a \<longrightarrow> record_time r \<noteq> record_time a"
    by (metis (mono_tags, lifting) imageI)
  with IH show ?case by auto
qed

lemma sorted_history_unique:
  assumes "mset h = mset xs" "sorted (map record_time h)" "distinct (map record_time xs)"
  shows "h = sort_key record_time xs"
proof -
  have "sorts_by record_time (\<lambda>ys. if ys = xs then h else sort_key record_time ys)"
    using assms(1,2) by (simp add: sorts_by_def)
  from sorts_by_unique[OF this assms(3)] show ?thesis by simp
qed

lemma query3_groups:
  "mset (query3 srt rs ss) =
     mset (concat (map (\<lambda>sid. rolling_avg srt (filter (\<lambda>(r, s). s_sensor_id s = sid) (joined rs ss)))
       (remdups (map (\<lambda>(r, s). s_sensor_id s) (joined rs ss)))))"
  by (simp add: query3_def group_by_def comp_def case_prod_unfold)

lemma query3_per_sensor:
  assumes srt: "sorts_by (\<lambda>(r, s). record_time r) srt" and d: "distinct (map s_sensor_id ss)"
    and h: "\<And>s. s \<in> set ss \<Longrightarrow>
      srt (map (\<lambda>r. (r, s)) (filter (\<lambda>r. r_sensor_id r = s_sensor_id s) rs)) = map (\<lambda>r. (r, s)) (hist s)"
  shows "mset (query3 srt rs ss) = mset (concat (map (\<lambda>s. rolling_rows s (hist s)) ss))"
proof -
  let ?J = "joined rs ss"
  let ?G = "\<lambda>sid. rolling_avg srt (filter (\<lambda>(r, s). s_sensor_id s = sid) ?J)"
  let ?keys = "remdups (map (\<lambda>(r, s). s_sensor_id s) ?J)"
  have spec: "?G (s_sensor_id s) = rolling_rows s (hist s)" if "s \<in> set ss" for s
    unfolding sensor_partition[OF d that] using h[OF that] by (rule rolling_avg_of_ordered)
  have sub: "set ?keys \<subseteq> set (map s_sensor_id ss)"
    by (auto dest: joined_sensor_mem)
  have empty: "?G sid = []" if "sid \<notin> set ?keys" for sid
  proof -
    from that have "filter (\<lambda>(r, s). s_sensor_id s = sid) ?J = []"
      by (force simp: filter_empty_conv)
    then show ?thesis by (simp add: rolling_avg_def sorts_by_Nil[OF srt])
  qed
  have "mset (concat (map ?G ?keys)) = mset (concat (map ?G (map s_sensor_id ss)))"
    by (rule mset_concat_map_cong) (use d sub empty in auto)
  also have "map ?G (map s_sensor_id ss) = map (\<lambda>s. rolling_rows s (hist s)) ss"
    using spec by simp
  finally show ?thesis by (simp add: query3_groups)
qed

lemma query3_rolling_example:
  assumes "sorts_by (\<lambda>(r, s). record_time r) srt"
  shows "map rolling_avg_speed (query3 srt rolling_example one_sensor)
     = [Some 10, Some 15, Some 20, Some 25, Some 30, Some 35, Some 45]"
    and "map q3_record_time (query3 srt rolling_example one_sensor) = [1, 2, 3, 4, 5, 6, 7]"
proof -
  let ?P = "map (\<lambda>r. (r, hd one_sensor)) rolling_example"
  have "srt ?P = sort_key (\<lambda>(r, s). record_time r) ?P"
    by (rule sorts_by_unique[OF assms]) (simp add: rolling_example_def)
  then have e: "srt ?P = ?P" by (simp add: rolling_example_def)
  have q: "query3 srt rolling_example one_sensor =
      sort_key (\<lambda>row. (q3_location_name row, q3_record_time row)) (rolling_avg srt ?P)"
    by (simp add: query3_def group_by_def joined_def rolling_example_def one_sensor_def)
  show "map rolling_avg_speed (query3 srt rolling_example one_sensor)
     = [Some 10, Some 15, Some 20, Some 25, Some 30, Some 35, Some 45]"
    unfolding q rolling_avg_def e
    by (simp add: frame_5_preceding_def avg_def rolling_example_def one_sensor_def upt_rec numeral_nat)
  show "map q3_record_time (query3 srt rolling_example one_sensor) = [1, 2, 3, 4, 5, 6, 7]"
    unfolding q rolling_avg_def e
    by (simp add: frame_5_preceding_def avg_def rolling_example_def one_sensor_def upt_rec numeral_nat)
qed

lemma query3_rolling_peer_example:
  "map rolling_avg_speed (query3 stable_sort rolling_peer_example one_sensor) = [Some 10, Some 25]"
  "map rolling_avg_speed (query3 reversing_sort rolling_peer_example one_sensor) = [Some 40, Some 25]"
  by (simp_all add: query3_def rolling_avg_def group_by_def joined_def frame_5_preceding_def avg_def
      stable_sort_def reversing_sort_def rolling_peer_example_def one_sensor_def upt_rec numeral_nat)

text \<open>
  Claim C3, with the example as the statement computes it. Let the executor's sort order
  every partition by \<open>record_time\<close>, and let \<open>sensor_id\<close> be a key of \<open>sensors\<close>. Then
  each sensor's readings have an order \<open>hist\<close> by \<open>record_time\<close> ascending such that the
  rolling-average view holds, up to its final ordering by location and time, exactly one
  row per reading of each sensor, whose \<open>rolling_avg_speed\<close> is always defined and is the
  mean of the speeds of that row and the up to 5 rows before it in the order of its own
  sensor. When no two readings of a sensor have the same \<open>record_time\<close>, that order is
  the sensor's history and the rows are those of \<open>rolling_spec\<close>; among readings of equal
  \<open>record_time\<close> the order, and with it the averages, are the executor's choice. For the
  ordered speeds 10, 20, ..., 70 the first row's average is 10 and the seventh row's is
  45, the mean of its window 20, ..., 70.
\<close>

theorem rolling_average_per_sensor:
  "(sorts_by (\<lambda>(r, s). record_time r) srt \<and> distinct (map s_sensor_id ss) \<longrightarrow>
      (\<exists>hist.
         (\<forall>s \<in> set ss. mset (hist s) = mset (filter (\<lambda>r. r_sensor_id r = s_sensor_id s) rs)
                       \<and> sorted (map record_time (hist s)))
         \<and> mset (query3 srt rs ss) = mset (concat (map (\<lambda>s. rolling_rows s (hist s)) ss))))
   \<and> (sorts_by (\<lambda>(r, s). record_time r) srt \<and> distinct (map s_sensor_id ss)
      \<and> distinct (map (\<lambda>r. (r_sensor_id r, record_time r)) rs) \<longrightarrow>
        mset (query3 srt rs ss) = mset (concat (map (rolling_spec rs) ss)))
   \<and> sorted (map (\<lambda>row. (q3_location_name row, q3_record_time row)) (query3 srt rs ss))
   \<and> (sorts_by (\<lambda>(r, s). record_time r) srt \<longrightarrow>
        map rolling_avg_speed (query3 srt rolling_example one_sensor) ! 0 = Some 10
        \<and> map rolling_avg_speed (query3 srt rolling_example one_sensor) ! 6 = Some 45)"
proof -
  let ?F = "\<lambda>s. filter (\<lambda>r. r_sensor_id r = s_sensor_id s) rs"
  define hist where "hist s = map fst (srt (map (\<lambda>r. (r, s)) (?F s)))" for s
  have hist: "srt (map (\<lambda>r. (r, s)) (?F s)) = map (\<lambda>r. (r, s)) (hist s)
      \<and> mset (hist s) = mset (?F s) \<and> sorted (map record_time (hist s))"
    if "sorts_by (\<lambda>(r, s). record_time r) srt" for s
  proof -
    from sorted_sensor_partition[OF that, of s "?F s"] obtain h where
      h: "srt (map (\<lambda>r. (r, s)) (?F s)) = map (\<lambda>r. (r, s)) h" "mset h = mset (?F s)"
        "sorted (map record_time h)"
      by blast
    from h(1) have "hist s = h" by (simp add: hist_def comp_def)
    with h show ?thesis by simp
  qed
  have general: "mset (query3 srt rs ss) = mset (concat (map (\<lambda>s. rolling_rows s (hist s)) ss))"
    if "sorts_by (\<lambda>(r, s). record_time r) srt" "distinct (map s_sensor_id ss)"
    by (rule query3_per_sensor[OF that]) (simp add: hist[OF that(1)])
  have c1: "sorts_by (\<lambda>(r, s). record_time r) srt \<and> distinct (map s_sensor_id ss) \<longrightarrow>
      (\<exists>hist.
         (\<forall>s \<in> set ss. mset (hist s) = mset (filter (\<lambda>r. r_sensor_id r = s_sensor_id s) rs)
                       \<and> sorted (map record_time (hist s)))
         \<and> mset (query3 srt rs ss) = mset (concat (map (\<lambda>s. rolling_rows s (hist s)) ss)))"
  proof
    assume a: "sorts_by (\<lambda>(r, s). record_time r) srt \<and> distinct (map s_sensor_id ss)"
    then have "\<forall>s \<in> set ss. mset (hist s) = mset (?F s) \<and> sorted (map record_time (hist s))"
      using hist by blast
    moreover have "mset (query3 srt rs ss) = mset (concat (map (\<lambda>s. rolling_rows s (hist s)) ss))"
      using a general by blast
    ultimately show "\<exists>hist.
         (\<forall>s \<in> set ss. mset (hist s) = mset (?F s) \<and> sorted (map record_time (hist s)))
         \<and> mset (query3 srt rs ss) = mset (concat (map (\<lambda>s. rolling_rows s (hist s)) ss))"
      by blast
  qed
  have c2: "sorts_by (\<lambda>(r, s). record_time r) srt \<and> distinct (map s_sensor_id ss)
      \<and> distinct (map (\<lambda>r. (r_sensor_id r, record_time r)) rs) \<longrightarrow>
        mset (query3 srt rs ss) = mset (concat (map (rolling_spec rs) ss))"
  proof
    assume a: "sorts_by (\<lambda>(r, s). record_time r) srt \<and> distinct (map s_sensor_id ss)
      \<and> distinct (map (\<lambda>r. (r_sensor_id r, record_time r)) rs)"
    then have srt: "sorts_by (\<lambda>(r, s). record_time r) srt" and d: "distinct (map s_sensor_id ss)"
      and t: "distinct (map (\<lambda>r. (r_sensor_id r, record_time r)) rs)"
      by simp_all
    have "hist s = sensor_history rs (s_sensor_id s)" for s
      unfolding sensor_history_def
      using hist[OF srt, of s] distinct_times_of_sensor[OF t, of "s_sensor_id s"]
      by (intro sorted_history_unique) simp_all
    then have "(\<lambda>s. rolling_rows s (hist s)) = rolling_spec rs"
      by (simp add: rolling_spec_def fun_eq_iff)
    with general[OF srt d] show "mset (query3 srt rs ss) = mset (concat (map (rolling_spec rs) ss))"
      by simp
  qed
  have c3: "sorted (map (\<lambda>row. (q3_location_name row, q3_record_time row)) (query3 srt rs ss))"
    by (simp add: query3_def)
  have c4: "sorts_by (\<lambda>(r, s). record_time r) srt \<longrightarrow>
        map rolling_avg_speed (query3 srt rolling_example one_sensor) ! 0 = Some 10
        \<and> map rolling_avg_speed (query3 srt rolling_example one_sensor) ! 6 = Some 45"
    by (simp add: query3_rolling_example)
  from c1 c2 c3 c4 show ?thesis by (intro conjI)
qed

theorem rolling_average_per_sensor_witness:
  "sorts_by (\<lambda>(r, s). record_time r) stable_sort
   \<and> sorts_by (\<lambda>(r, s). record_time r) reversing_sort
   \<and> distinct (map s_sensor_id one_sensor)
   \<and> distinct (map (\<lambda>r. (r_sensor_id r, record_time r)) rolling_example)
   \<and> mset (query3 stable_sort rolling_example one_sensor)
       = mset (concat (map (rolling_spec rolling_example) one_sensor))
   \<and> map rolling_avg_speed (query3 stable_sort rolling_example one_sensor)
       = [Some 10, Some 15, Some 20, Some 25, Some 30, Some 35, Some 45]
   \<and> map rolling_avg_speed (query3 reversing_sort rolling_example one_sensor)
       = [Some 10, Some 15, Some 20, Some 25, Some 30, Some 35, Some 45]
   \<and> map rolling_avg_speed (query3 stable_sort rolling_peer_example one_sensor) = [Some 10, Some 25]
   \<and> map rolling_avg_speed (query3 reversing_sort rolling_peer_example one_sensor) = [Some 40, Some 25]"
proof -
  have d: "distinct (map s_sensor_id one_sensor)" by (simp add: one_sensor_def)
  have t: "distinct (map (\<lambda>r. (r_sensor_id r, record_time r)) rolling_example)"
    by (simp add: rolling_example_def)
  from rolling_average_per_sensor[of stable_sort one_sensor rolling_example]
    sorts_by_stable_sort sorts_by_reversing_sort d t
    query3_rolling_example(1)[OF sorts_by_stable_sort]
    query3_rolling_example(1)[OF sorts_by_reversing_sort]
    query3_rolling_peer_example
  show ?thesis by simp
qed

text \<open>
  Claim C3 as it is worded gives 40, the mean of all seven speeds, as the seventh row's
  average; the window holds six rows and the view reports 45.
\<close>

theorem rolling_seventh_row_counterexample:
  "length (query3 stable_sort rolling_example one_sensor) = 7
   \<and> map q3_record_time (query3 stable_sort rolling_example one_sensor) = [1, 2, 3, 4, 5, 6, 7]
   \<and> rolling_avg_speed (query3 stable_sort rolling_example one_sensor ! 6) = Some 45
   \<and> rolling_avg_speed (query3 stable_sort rolling_example one_sensor ! 6) \<noteq> Some 40"
  by (simp add: query3_def rolling_avg_def group_by_def joined_def frame_5_preceding_def avg_def
      stable_sort_def rolling_example_def one_sensor_def upt_rec numeral_nat)

section \<open>The density-speed correlation\<close>

lemma query4_density_example:
  "query4 density_example two_sensors =
     [\<lparr>q4_location_name = ''A'', q4_vehicle_count = 1, q4_avg_speed = Some 10\<rparr>,
      \<lparr>q4_location_name = ''B'', q4_vehicle_count = 1, q4_avg_speed = Some 20\<rparr>]"
  by (simp add: query4_def group_by_def joined_def count_distinct_def avg_def
      density_example_def two_sensors_def)

lemma query4_density_example2:
  "query4 density_example2 two_sensors =
     [\<lparr>q4_location_name = ''B'', q4_vehicle_count = 2, q4_avg_speed = Some 30\<rparr>,
      \<lparr>q4_location_name = ''A'', q4_vehicle_count = 1, q4_avg_speed = Some 10\<rparr>]"
  by (simp add: query4_def group_by_def joined_def count_distinct_def avg_def
      density_example2_def two_sensors_def)

lemma corr_density_example:
  "corr (counts (query4 density_example two_sensors)) (map q4_avg_speed (query4 density_example two_sensors)) = None"
  by (simp add: query4_density_example counts_def corr_def pearson_def List.map_filter_def)

lemma corr_density_example2:
  "corr (counts (query4 density_example2 two_sensors)) (map q4_avg_speed (query4 density_example2 two_sensors)) = Some 1"
  by (simp add: query4_density_example2 counts_def corr_def pearson_def List.map_filter_def
      power2_eq_square real_sqrt_mult  flip: real_sqrt_mult)

lemma sum_list_square_combination:
  fixes f g :: "'a \<Rightarrow> real"
  shows "sum_list (map (\<lambda>x. (u * g x - v * f x)\<^sup>2) xs)
       = u\<^sup>2 * sum_list (map (\<lambda>x. (g x)\<^sup>2) xs) - 2 * u * v * sum_list (map (\<lambda>x. f x * g x) xs)
         + v\<^sup>2 * sum_list (map (\<lambda>x. (f x)\<^sup>2) xs)"
  by (induction xs) (simp_all add: power2_eq_square algebra_simps)

lemma sum_list_squares_zero:
  fixes f :: "'a \<Rightarrow> real"
  shows "sum_list (map (\<lambda>x. (f x)\<^sup>2) xs) = 0 \<longleftrightarrow> (\<forall>x \<in> set xs. f x = 0)"
proof (induction xs)
  case Nil
  then show ?case by simp
next
  case (Cons a xs)
  have "0 \<le> sum_list (map (\<lambda>x. (f x)\<^sup>2) xs)" by (rule sum_list_nonneg) auto
  moreover have "0 \<le> (f a)\<^sup>2" by simp
  ultimately have "(f a)\<^sup>2 + sum_list (map (\<lambda>x. (f x)\<^sup>2) xs) = 0
      \<longleftrightarrow> (f a)\<^sup>2 = 0 \<and> sum_list (map (\<lambda>x. (f x)\<^sup>2) xs) = 0"
    by (rule add_nonneg_eq_0_iff[rotated])
  with Cons show ?case by simp
qed

lemma cauchy_schwarz_list:
  fixes f g :: "'a \<Rightarrow> real"
  shows "(sum_list (map (\<lambda>x. f x * g x) xs))\<^sup>2
       \<le> sum_list (map (\<lambda>x. (f x)\<^sup>2) xs) * sum_list (map (\<lambda>x. (g x)\<^sup>2) xs)"
proof -
  let ?A = "sum_list (map (\<lambda>x. (f x)\<^sup>2) xs)"
  let ?B = "sum_list (map (\<lambda>x. (g x)\<^sup>2) xs)"
  let ?C = "sum_list (map (\<lambda>x. f x * g x) xs)"
  have A0: "0 \<le> ?A" by (rule sum_list_nonneg) auto
  show ?thesis
  proof (cases "?A = 0")
    case True
    then have "\<forall>x \<in> set xs. f x = 0" by (simp add: sum_list_squares_zero)
    then have "map (\<lambda>x. f x * g x) xs = map (\<lambda>x. 0) xs" by simp
    then have "?C = 0" by (simp del: map_eq_conv)
    with True show ?thesis by simp
  next
    case False
    with A0 have pos: "0 < ?A" by simp
    have "0 \<le> sum_list (map (\<lambda>x. (?A * g x - ?C * f x)\<^sup>2) xs)"
      by (rule sum_list_nonneg) auto
    also have "\<dots> = ?A\<^sup>2 * ?B - 2 * ?A * ?C * ?C + ?C\<^sup>2 * ?A"
      by (rule sum_list_square_combination)
    also have "\<dots> = ?A * (?A * ?B - ?C\<^sup>2)"
      by (simp add: power2_eq_square algebra_simps)
    finally have "0 \<le> ?A * (?A * ?B - ?C\<^sup>2)" .
    with pos have "0 \<le> ?A * ?B - ?C\<^sup>2" by (simp add: zero_le_mult_iff)
    then show ?thesis by simp
  qed
qed

lemma mean_of_constant:
  fixes f :: "'a \<Rightarrow> real"
  assumes "\<forall>x \<in> set xs. f x = v" "xs \<noteq> []"
  shows "sum_list (map f xs) / real (length xs) = v"
proof -
  from assms(1) have "map f xs = map (\<lambda>x. v) xs" by simp
  then have "sum_list (map f xs) = real (length xs) * v"
    by (simp add: sum_list_replicate map_replicate_const del: map_eq_conv)
  with assms(2) show ?thesis by simp
qed

lemma pearson_None_iff:
  "pearson ps = None \<longleftrightarrow>
     length ps < 2 \<or> (\<exists>v. \<forall>p \<in> set ps. fst p = v) \<or> (\<exists>v. \<forall>p \<in> set ps. snd p = v)"
proof (cases "length ps < 2")
  case True
  then have "length ps - 1 = 0" by simp
  then show ?thesis using True by (simp add: pearson_def Let_def)
next
  case False
  then have ne: "ps \<noteq> []" and d: "0 < real (length ps - 1)" by auto
  let ?mx = "sum_list (map fst ps) / real (length ps)"
  let ?my = "sum_list (map snd ps) / real (length ps)"
  have x: "sum_list (map (\<lambda>(x, y). (x - ?mx)\<^sup>2) ps) = 0 \<longleftrightarrow> (\<exists>v. \<forall>p \<in> set ps. fst p = v)"
  proof
    assume "sum_list (map (\<lambda>(x, y). (x - ?mx)\<^sup>2) ps) = 0"
    then have "sum_list (map (\<lambda>p. (fst p - ?mx)\<^sup>2) ps) = 0" by (simp add: case_prod_unfold)
    then have "\<forall>p \<in> set ps. fst p = ?mx" by (simp add: sum_list_squares_zero)
    then show "\<exists>v. \<forall>p \<in> set ps. fst p = v" by blast
  next
    assume "\<exists>v. \<forall>p \<in> set ps. fst p = v"
    then obtain v where v: "\<forall>p \<in> set ps. fst p = v" by blast
    from mean_of_constant[OF this ne] v have "\<forall>p \<in> set ps. fst p - ?mx = 0" by simp
    then have "sum_list (map (\<lambda>p. (fst p - ?mx)\<^sup>2) ps) = 0" by (simp only: sum_list_squares_zero)
    then show "sum_list (map (\<lambda>(x, y). (x - ?mx)\<^sup>2) ps) = 0" by (simp add: case_prod_unfold)
  qed
  have y: "sum_list (map (\<lambda>(x, y). (y - ?my)\<^sup>2) ps) = 0 \<longleftrightarrow> (\<exists>v. \<forall>p \<in> set ps. snd p = v)"
  proof
    assume "sum_list (map (\<lambda>(x, y). (y - ?my)\<^sup>2) ps) = 0"
    then have "sum_list (map (\<lambda>p. (snd p - ?my)\<^sup>2) ps) = 0" by (simp add: case_prod_unfold)
    then have "\<forall>p \<in> set ps. snd p = ?my" by (simp add: sum_list_squares_zero)
    then show "\<exists>v. \<forall>p \<in> set ps. snd p = v" by blast
  next
    assume "\<exists>v. \<forall>p \<in> set ps. snd p = v"
    then obtain v where v: "\<forall>p \<in> set ps. snd p = v" by blast
    from mean_of_constant[OF this ne] v have "\<forall>p \<in> set ps. snd p - ?my = 0" by simp
    then have "sum_list (map (\<lambda>p. (snd p - ?my)\<^sup>2) ps) = 0" by (simp only: sum_list_squares_zero)
    then show "sum_list (map (\<lambda>(x, y). (y - ?my)\<^sup>2) ps) = 0" by (simp add: case_prod_unfold)
  qed
  from False d have "pearson ps = None \<longleftrightarrow>
      sum_list (map (\<lambda>(x, y). (x - ?mx)\<^sup>2) ps) = 0 \<or> sum_list (map (\<lambda>(x, y). (y - ?my)\<^sup>2) ps) = 0"
    by (auto simp: pearson_def Let_def)
  with x y False show ?thesis by simp
qed

lemma correlation_ratio_bound:
  fixes sxy sxx syy d :: real
  assumes d: "0 < d" and xx: "0 \<le> sxx" "sxx / d \<noteq> 0" and yy: "0 \<le> syy" "syy / d \<noteq> 0"
    and cs: "sxy\<^sup>2 \<le> sxx * syy"
  shows "- 1 \<le> (sxy / d) / (sqrt (sxx / d) * sqrt (syy / d))
       \<and> (sxy / d) / (sqrt (sxx / d) * sqrt (syy / d)) \<le> 1"
proof -
  let ?c = "(sxy / d) / (sqrt (sxx / d) * sqrt (syy / d))"
  from d xx have px: "0 < sxx" by (cases "sxx = 0") simp_all
  from d yy have py: "0 < syy" by (cases "syy = 0") simp_all
  from px py d have pvx: "0 < sxx / d" and pvy: "0 < syy / d" by simp_all
  have "?c\<^sup>2 = (sxy / d)\<^sup>2 / ((sxx / d) * (syy / d))"
    using pvx pvy by (simp add: power_divide power_mult_distrib)
  also have "\<dots> = sxy\<^sup>2 / (sxx * syy)"
    using d by (simp add: power2_eq_square)
  also have "\<dots> \<le> 1"
  proof -
    from px py have "0 < sxx * syy" by simp
    with cs show ?thesis by simp
  qed
  finally have "?c\<^sup>2 \<le> 1\<^sup>2" by simp
  then have "\<bar>?c\<bar> \<le> \<bar>1\<bar>" by (simp only: abs_le_square_iff)
  then have "\<bar>?c\<bar> \<le> 1" by (simp only: abs_one)
  then have "?c \<le> 1" "- ?c \<le> 1" by (rule abs_le_D1, rule abs_le_D2)
  then show ?thesis by linarith
qed

lemma pearson_bound:
  assumes "pearson ps = Some c"
  shows "- 1 \<le> c \<and> c \<le> 1"
proof -
  let ?mx = "sum_list (map fst ps) / real (length ps)"
  let ?my = "sum_list (map snd ps) / real (length ps)"
  let ?d = "real (length ps - 1)"
  let ?Sxy = "sum_list (map (\<lambda>p. (fst p - ?mx) * (snd p - ?my)) ps)"
  let ?Sxx = "sum_list (map (\<lambda>p. (fst p - ?mx)\<^sup>2) ps)"
  let ?Syy = "sum_list (map (\<lambda>p. (snd p - ?my)\<^sup>2) ps)"
  have unfolded: "pearson ps =
      (if length ps - 1 = 0 \<or> ?Sxx / ?d = 0 \<or> ?Syy / ?d = 0 then None
       else Some ((?Sxy / ?d) / (sqrt (?Sxx / ?d) * sqrt (?Syy / ?d))))"
    unfolding pearson_def Let_def case_prod_unfold ..
  have cond: "\<not> (length ps - 1 = 0 \<or> ?Sxx / ?d = 0 \<or> ?Syy / ?d = 0)"
  proof
    assume "length ps - 1 = 0 \<or> ?Sxx / ?d = 0 \<or> ?Syy / ?d = 0"
    then have "pearson ps = None" by (simp only: unfolded if_True)
    with assms show False by simp
  qed
  then have "pearson ps = Some ((?Sxy / ?d) / (sqrt (?Sxx / ?d) * sqrt (?Syy / ?d)))"
    by (simp only: unfolded if_False)
  with assms have c: "c = (?Sxy / ?d) / (sqrt (?Sxx / ?d) * sqrt (?Syy / ?d))" by simp
  note cond' = cond[unfolded de_Morgan_disj]
  note n = cond'[THEN conjunct1]
  note vx = cond'[THEN conjunct2, THEN conjunct1]
  note vy = cond'[THEN conjunct2, THEN conjunct2]
  from n have "0 < length ps - 1" by (rule neq0_conv[THEN iffD1])
  then have d: "0 < ?d" by (simp only: of_nat_0_less_iff)
  have xx: "0 \<le> ?Sxx" by (rule sum_list_nonneg) auto
  have yy: "0 \<le> ?Syy" by (rule sum_list_nonneg) auto
  have cs: "?Sxy\<^sup>2 \<le> ?Sxx * ?Syy" by (rule cauchy_schwarz_list)
  show ?thesis
    unfolding c by (rule correlation_ratio_bound[OF d xx vx yy vy cs])
qed

lemma query4_avg_defined:
  assumes "row \<in> set (query4 rs ss)"
  shows "\<exists>a. q4_avg_speed row = Some a"
proof -
  from assms obtain loc g where g: "(loc, g) \<in> set (group_by (\<lambda>(r, s). location_name s) (joined rs ss))"
    and row: "q4_avg_speed row = avg (map (\<lambda>(r, s). speed r) g)"
    by (auto simp: query4_def)
  from group_by_nonempty[OF g] show ?thesis by (simp add: row avg_def)
qed

lemma query4_locations: "distinct (map q4_location_name (query4 rs ss))"
proof -
  have "map q4_location_name (map (\<lambda>(loc, g). \<lparr>q4_location_name = loc,
            q4_vehicle_count = count_distinct (map (\<lambda>(r, s). vehicle_id r) g),
            q4_avg_speed = avg (map (\<lambda>(r, s). speed r) g)\<rparr>)
          (group_by (\<lambda>(r, s). location_name s) (joined rs ss)))
      = remdups (map (\<lambda>(r, s). location_name s) (joined rs ss))"
    by (simp add: group_by_def comp_def)
  then have "distinct (map q4_location_name (map (\<lambda>(loc, g). \<lparr>q4_location_name = loc,
            q4_vehicle_count = count_distinct (map (\<lambda>(r, s). vehicle_id r) g),
            q4_avg_speed = avg (map (\<lambda>(r, s). speed r) g)\<rparr>)
          (group_by (\<lambda>(r, s). location_name s) (joined rs ss))))"
    by (simp only: distinct_remdups)
  moreover have "mset (map q4_location_name (query4 rs ss))
      = mset (map q4_location_name (map (\<lambda>(loc, g). \<lparr>q4_location_name = loc,
            q4_vehicle_count = count_distinct (map (\<lambda>(r, s). vehicle_id r) g),
            q4_avg_speed = avg (map (\<lambda>(r, s). speed r) g)\<rparr>)
          (group_by (\<lambda>(r, s). location_name s) (joined rs ss))))"
    unfolding query4_def mset_map mset_sort ..
  ultimately show ?thesis
    using mset_eq_imp_distinct_iff by blast
qed

lemma valid_pairs:
  assumes "\<forall>row \<in> set rows. \<exists>a. q4_avg_speed row = Some a"
  shows "List.map_filter (\<lambda>(x, y). map_option (Pair x) y) (zip (counts rows) (map q4_avg_speed rows))
       = map (\<lambda>row. (real (q4_vehicle_count row), the (q4_avg_speed row))) rows"
  using assms by (induction rows) (auto simp: List.map_filter_def counts_def)

lemma corr_rows:
  assumes "\<forall>row \<in> set rows. \<exists>a. q4_avg_speed row = Some a"
  shows "corr (counts rows) (map q4_avg_speed rows) =
     (if rows = [] then None
      else pearson (map (\<lambda>row. (real (q4_vehicle_count row), the (q4_avg_speed row))) rows))"
  by (simp add: corr_def valid_pairs[OF assms])

lemma corr_query4_None_iff:
  assumes rows: "\<forall>row \<in> set rows. \<exists>a. q4_avg_speed row = Some a"
  shows "corr (counts rows) (map q4_avg_speed rows) = None \<longleftrightarrow>
     length rows < 2 \<or> (\<exists>v. \<forall>row \<in> set rows. q4_vehicle_count row = v)
       \<or> (\<exists>v. \<forall>row \<in> set rows. q4_avg_speed row = v)"
proof -
  let ?ps = "map (\<lambda>row. (real (q4_vehicle_count row), the (q4_avg_speed row))) rows"
  have x: "(\<exists>v. \<forall>p \<in> set ?ps. fst p = v) \<longleftrightarrow> (\<exists>v. \<forall>row \<in> set rows. q4_vehicle_count row = v)"
  proof
    assume "\<exists>v. \<forall>p \<in> set ?ps. fst p = v"
    then obtain v where v: "\<forall>row \<in> set rows. real (q4_vehicle_count row) = v" by auto
    show "\<exists>v. \<forall>row \<in> set rows. q4_vehicle_count row = v"
    proof (cases rows)
      case Nil
      then show ?thesis by simp
    next
      case (Cons a as)
      with v have "\<forall>row \<in> set rows. real (q4_vehicle_count row) = real (q4_vehicle_count a)" by simp
      then have "\<forall>row \<in> set rows. q4_vehicle_count row = q4_vehicle_count a" by simp
      then show ?thesis ..
    qed
  next
    assume "\<exists>v. \<forall>row \<in> set rows. q4_vehicle_count row = v"
    then obtain v where "\<forall>row \<in> set rows. q4_vehicle_count row = v" ..
    then have "\<forall>p \<in> set ?ps. fst p = real v" by simp
    then show "\<exists>v. \<forall>p \<in> set ?ps. fst p = v" ..
  qed
  have y: "(\<exists>v. \<forall>p \<in> set ?ps. snd p = v) \<longleftrightarrow> (\<exists>v. \<forall>row \<in> set rows. q4_avg_speed row = v)"
  proof
    assume "\<exists>v. \<forall>p \<in> set ?ps. snd p = v"
    then obtain v where v: "\<forall>row \<in> set rows. the (q4_avg_speed row) = v" by auto
    have "\<forall>row \<in> set rows. q4_avg_speed row = Some v"
    proof
      fix row assume r: "row \<in> set rows"
      with rows obtain a where "q4_avg_speed row = Some a" by blast
      with v r show "q4_avg_speed row = Some v" by auto
    qed
    then show "\<exists>v. \<forall>row \<in> set rows. q4_avg_speed row = v" ..
  next
    assume "\<exists>v. \<forall>row \<in> set rows. q4_avg_speed row = v"
    then obtain v where "\<forall>row \<in> set rows. q4_avg_speed row = v" ..
    then have "\<forall>p \<in> set ?ps. snd p = the v" by simp
    then show "\<exists>v. \<forall>p \<in> set ?ps. snd p = v" ..
  qed
  show ?thesis
  proof (cases "rows = []")
    case True
    then show ?thesis by (simp add: corr_def counts_def List.map_filter_def)
  next
    case False
    then have "corr (counts rows) (map q4_avg_speed rows) = pearson ?ps"
      by (simp add: corr_rows[OF rows])
    then show ?thesis by (simp only: pearson_None_iff x y length_map)
  qed
qed

lemma corr_query4_bound:
  assumes rows: "\<forall>row \<in> set rows. \<exists>a. q4_avg_speed row = Some a"
    and c: "corr (counts rows) (map q4_avg_speed rows) = Some c"
  shows "- 1 \<le> c \<and> c \<le> 1"
proof -
  from c have "rows \<noteq> []" by (auto simp: corr_def counts_def List.map_filter_def)
  with c have "pearson (map (\<lambda>row. (real (q4_vehicle_count row), the (q4_avg_speed row))) rows) = Some c"
    by (simp add: corr_rows[OF rows])
  then show ?thesis by (rule pearson_bound)
qed

text \<open>
  Claim C7, as the driver computes it. The density summary has one row per location. If
  it has no row the view shows \<open>No data returned.\<close> and no coefficient; otherwise the
  metric shows \<open>round(corr, 2)\<close>. The coefficient is computed for any non-empty summary
  and is \<open>NaN\<close> (here \<open>None\<close>) when the summary has a single row or when the vehicle counts,
  or the average speeds, are the same at all locations; with at least two locations and
  neither column constant it is a number between -1 and 1.
\<close>

theorem density_speed_correlation:
  "distinct (map q4_location_name (query4 rs ss))
   \<and> (query4 rs ss = [] \<longrightarrow> run_view srt DensitySpeed rs ss = Inr (Warning ''No data returned.''))
   \<and> (query4 rs ss \<noteq> [] \<longrightarrow>
        run_view srt DensitySpeed rs ss =
          Inr (Metric (map_option py_round2
                 (corr (counts (query4 rs ss)) (map q4_avg_speed (query4 rs ss))))
               (DensityFrame (query4 rs ss))))
   \<and> (length (query4 rs ss) = 1 \<longrightarrow>
        corr (counts (query4 rs ss)) (map q4_avg_speed (query4 rs ss)) = None)
   \<and> ((\<exists>v. \<forall>row \<in> set (query4 rs ss). q4_vehicle_count row = v) \<or>
       (\<exists>v. \<forall>row \<in> set (query4 rs ss). q4_avg_speed row = v) \<longrightarrow>
        corr (counts (query4 rs ss)) (map q4_avg_speed (query4 rs ss)) = None)
   \<and> (2 \<le> length (query4 rs ss) \<and>
       \<not> (\<exists>v. \<forall>row \<in> set (query4 rs ss). q4_vehicle_count row = v) \<and>
       \<not> (\<exists>v. \<forall>row \<in> set (query4 rs ss). q4_avg_speed row = v) \<longrightarrow>
        (\<exists>c. corr (counts (query4 rs ss)) (map q4_avg_speed (query4 rs ss)) = Some c \<and>
             - 1 \<le> c \<and> c \<le> 1))"
proof -
  let ?rows = "query4 rs ss"
  let ?corr = "corr (counts ?rows) (map q4_avg_speed ?rows)"
  have rows: "\<forall>row \<in> set ?rows. \<exists>a. q4_avg_speed row = Some a"
    by (simp add: query4_avg_defined)
  note none = corr_query4_None_iff[OF rows]
  have c1: "distinct (map q4_location_name ?rows)" by (rule query4_locations)
  have c2: "?rows = [] \<longrightarrow> run_view srt DensitySpeed rs ss = Inr (Warning ''No data returned.'')"
    by (simp add: run_view_def)
  have c3: "?rows \<noteq> [] \<longrightarrow> run_view srt DensitySpeed rs ss =
          Inr (Metric (map_option py_round2 ?corr) (DensityFrame ?rows))"
    by (simp add: run_view_def counts_def)
  have c4: "length ?rows = 1 \<longrightarrow> ?corr = None"
    unfolding none by simp
  have c5: "(\<exists>v. \<forall>row \<in> set ?rows. q4_vehicle_count row = v) \<or>
       (\<exists>v. \<forall>row \<in> set ?rows. q4_avg_speed row = v) \<longrightarrow> ?corr = None"
    unfolding none by blast
  have c6: "2 \<le> length ?rows \<and>
       \<not> (\<exists>v. \<forall>row \<in> set ?rows. q4_vehicle_count row = v) \<and>
       \<not> (\<exists>v. \<forall>row \<in> set ?rows. q4_avg_speed row = v) \<longrightarrow>
        (\<exists>c. ?corr = Some c \<and> - 1 \<le> c \<and> c \<le> 1)"
  proof
    assume h: "2 \<le> length ?rows \<and>
       \<not> (\<exists>v. \<forall>row \<in> set ?rows. q4_vehicle_count row = v) \<and>
       \<not> (\<exists>v. \<forall>row \<in> set ?rows. q4_avg_speed row = v)"
    then have "\<not> length ?rows < 2" by simp
    with h have "?corr \<noteq> None" unfolding none by blast
    then obtain c where c: "?corr = Some c" by blast
    from corr_query4_bound[OF rows c] c show "\<exists>c. ?corr = Some c \<and> - 1 \<le> c \<and> c \<le> 1"
      by blast
  qed
  from c1 c2 c3 c4 c5 c6 show ?thesis by (intro conjI)
qed

theorem density_speed_correlation_witness:
  "query4 density_example2 two_sensors \<noteq> []
   \<and> length (query4 density_example2 two_sensors) = 2
   \<and> map q4_vehicle_count (query4 density_example2 two_sensors) = [2, 1]
   \<and> map q4_avg_speed (query4 density_example2 two_sensors) = [Some 30, Some 10]
   \<and> corr (counts (query4 density_example2 two_sensors))
        (map q4_avg_speed (query4 density_example2 two_sensors)) = Some 1
   \<and> run_view stable_sort DensitySpeed density_example2 two_sensors =
        Inr (Metric (Some 1) (DensityFrame (query4 density_example2 two_sensors)))
   \<and> length (query4 rolling_example one_sensor) = 1
   \<and> corr (counts (query4 rolling_example one_sensor))
        (map q4_avg_speed (query4 rolling_example one_sensor)) = None"
proof -
  have one: "length (query4 rolling_example one_sensor) = 1"
    by (simp add: query4_def group_by_def joined_def rolling_example_def one_sensor_def)
  have r: "map_option py_round2 (Some 1) = Some 1" by (simp add: py_round2_def)
  from density_speed_correlation[of density_example2 two_sensors stable_sort]
    density_speed_correlation[of rolling_example one_sensor stable_sort] one r corr_density_example2
  show ?thesis
    by (simp add: query4_density_example2)
qed

text \<open>
  Claim C7 as it is worded promises a coefficient in [-1, 1] for any two locations. With
  one vehicle at each of two locations the counts have no variance, the coefficient is
  \<open>NaN\<close>, and that is what the metric shows.
\<close>

theorem density_speed_correlation_counterexample:
  "length (query4 density_example two_sensors) = 2
   \<and> map q4_location_name (query4 density_example two_sensors) = [''A'', ''B'']
   \<and> corr (counts (query4 density_example two_sensors))
        (map q4_avg_speed (query4 density_example two_sensors)) = None
   \<and> run_view stable_sort DensitySpeed density_example two_sensors =
        Inr (Metric None (DensityFrame (query4 density_example two_sensors)))
   \<and> \<not> (\<exists>c. corr (counts (query4 density_example two_sensors))
               (map q4_avg_speed (query4 density_example two_sensors)) = Some c
             \<and> - 1 \<le> c \<and> c \<le> 1)"
proof -
  have "run_view stable_sort DensitySpeed density_example two_sensors =
        Inr (Metric (map_option py_round2 (corr (counts (query4 density_example two_sensors))
              (map q4_avg_speed (query4 density_example two_sensors))))
            (DensityFrame (query4 density_example two_sensors)))"
    by (simp add: run_view_def counts_def query4_density_example)
  then show ?thesis
    by (simp add: corr_density_example) (simp add: query4_density_example)
qed

section \<open>The hourly trend\<close>

lemma hourly_hours: "map h_hour_of_day (hourly rs) = remdups (map (\<lambda>r. extract_hour (record_time r)) rs)"
  by (simp add: hourly_def group_by_def comp_def)

lemma hourly_mem:
  "x \<in> set (hourly rs) \<Longrightarrow>
     h_avg_speed x = avg (map speed (filter (\<lambda>r. extract_hour (record_time r) = h_hour_of_day x) rs))
     \<and> filter (\<lambda>r. extract_hour (record_time r) = h_hour_of_day x) rs \<noteq> []"
  by (auto simp: hourly_def group_by_mem filter_empty_conv)

lemma length_lag_scan: "length (lag_scan prev xs) = length xs"
  by (induction xs arbitrary: prev) (simp_all add: Let_def)

lemma map_hour_lag_scan: "map hour_of_day (lag_scan prev xs) = map h_hour_of_day xs"
  by (induction xs arbitrary: prev) (simp_all add: Let_def)

lemma lag_scan_nth:
  "i < length xs \<Longrightarrow>
   lag_scan prev xs ! i =
     \<lparr>hour_of_day = h_hour_of_day (xs ! i), avg_speed = h_avg_speed (xs ! i),
      prev_hour_speed =
        (if i = 0 then (case prev of None \<Rightarrow> None | Some p \<Rightarrow> p) else h_avg_speed (xs ! (i - 1))),
      delta_speed = sql_round2 (sql_minus (h_avg_speed (xs ! i))
        (if i = 0 then (case prev of None \<Rightarrow> None | Some p \<Rightarrow> p) else h_avg_speed (xs ! (i - 1))))\<rparr>"
proof (induction xs arbitrary: prev i)
  case Nil
  then show ?case by simp
next
  case (Cons x xs)
  show ?case
  proof (cases i)
    case 0
    then show ?thesis by (simp add: Let_def)
  next
    case (Suc j)
    with Cons.prems have "j < length xs" by simp
    from Cons.IH[OF this, of "Some (h_avg_speed x)"] Suc show ?thesis
      by (cases j) (simp_all add: Let_def)
  qed
qed

lemma query5_eq: "query5 rs = lag_scan None (sort_key h_hour_of_day (hourly rs))"
  unfolding query5_def
  by (rule sort_key_id_if_sorted) (simp add: map_hour_lag_scan sorted_sort_key)

lemma query5_hours:
  "map hour_of_day (query5 rs) = sort (remdups (map (\<lambda>r. extract_hour (record_time r)) rs))"
  by (simp add: query5_eq map_hour_lag_scan map_sort_key hourly_hours)

lemma query5_trend_example:
  "query5 trend_example =
     [\<lparr>hour_of_day = 0, avg_speed = Some 10, prev_hour_speed = None, delta_speed = None\<rparr>,
      \<lparr>hour_of_day = 1, avg_speed = Some (31 / 3), prev_hour_speed = Some 10,
       delta_speed = Some (33 / 100)\<rparr>]"
  by (simp add: query5_def trend_example_def hourly_def group_by_def extract_hour_def avg_def
      sql_round2_def sql_minus_def round2_def)

lemma sorted_hourly_mem:
  assumes "i < length (hourly rs)"
  shows "\<exists>a. h_avg_speed (sort_key h_hour_of_day (hourly rs) ! i) = Some a \<and>
     avg (map speed (filter (\<lambda>r. extract_hour (record_time r) =
        h_hour_of_day (sort_key h_hour_of_day (hourly rs) ! i)) rs)) = Some a"
proof -
  let ?x = "sort_key h_hour_of_day (hourly rs) ! i"
  have "?x \<in> set (sort_key h_hour_of_day (hourly rs))"
    using assms by (intro nth_mem) simp
  then have "?x \<in> set (hourly rs)" by simp
  from hourly_mem[OF this] show ?thesis by (auto simp: avg_def)
qed

lemma sorted_hourly_strict:
  assumes "i < j" "j < length (hourly rs)"
  shows "h_hour_of_day (sort_key h_hour_of_day (hourly rs) ! i)
       < h_hour_of_day (sort_key h_hour_of_day (hourly rs) ! j)"
proof -
  let ?xs = "sort_key h_hour_of_day (hourly rs)"
  have d: "distinct (map h_hour_of_day ?xs)"
    by (simp add: map_sort_key hourly_hours)
  have s: "sorted (map h_hour_of_day ?xs)" by simp
  from assms have ij: "i < j" "j < length (map h_hour_of_day ?xs)" by simp_all
  have "map h_hour_of_day ?xs ! i \<le> map h_hour_of_day ?xs ! j"
    using s ij by (simp add: sorted_iff_nth_mono)
  moreover have "map h_hour_of_day ?xs ! i \<noteq> map h_hour_of_day ?xs ! j"
    using nth_eq_iff_index_eq[OF d, of i j] ij by simp
  ultimately show ?thesis using ij by simp
qed

text \<open>
  Claim C6, as the statement computes it. The rows of the hourly-trend view are the hours
  present in the readings, in ascending order, one row each. The first row has neither a
  \<open>prev_hour_speed\<close> nor a \<open>delta_speed\<close>. Every later row takes as \<open>prev_hour_speed\<close> the
  \<open>avg_speed\<close> of the row just before it, which belongs to a smaller hour (so hour 0 never
  follows hour 23), and its \<open>delta_speed\<close> is the difference of the two averages rounded to
  two decimal places.
\<close>

theorem trend_delta_uses_preceding_present_hour:
  "map hour_of_day (query5 rs) = sort (remdups (map (\<lambda>r. extract_hour (record_time r)) rs))
   \<and> (query5 rs \<noteq> [] \<longrightarrow>
        prev_hour_speed (query5 rs ! 0) = None \<and> delta_speed (query5 rs ! 0) = None)
   \<and> (\<forall>i. 0 < i \<and> i < length (query5 rs) \<longrightarrow>
        hour_of_day (query5 rs ! (i - 1)) < hour_of_day (query5 rs ! i) \<and>
        (\<exists>a p. avg_speed (query5 rs ! i) = Some a \<and> avg_speed (query5 rs ! (i - 1)) = Some p \<and>
           prev_hour_speed (query5 rs ! i) = Some p \<and>
           delta_speed (query5 rs ! i) = Some (round2 (a - p))))"
proof (intro conjI impI allI)
  show "map hour_of_day (query5 rs) = sort (remdups (map (\<lambda>r. extract_hour (record_time r)) rs))"
    by (rule query5_hours)
next
  assume "query5 rs \<noteq> []"
  then have "0 < length (query5 rs)" by simp
  then have "0 < length (sort_key h_hour_of_day (hourly rs))"
    by (simp add: query5_eq length_lag_scan)
  from lag_scan_nth[OF this, of None]
  show "prev_hour_speed (query5 rs ! 0) = None" "delta_speed (query5 rs ! 0) = None"
    by (simp_all add: query5_eq sql_round2_def sql_minus_def split: option.splits)
next
  fix i assume "0 < i \<and> i < length (query5 rs)"
  then have i: "0 < i" "i < length (hourly rs)" "i - 1 < length (hourly rs)" "i - 1 < i"
    by (auto simp add: query5_eq length_lag_scan)
  let ?xs = "sort_key h_hour_of_day (hourly rs)"
  have n: "query5 rs ! i = \<lparr>hour_of_day = h_hour_of_day (?xs ! i), avg_speed = h_avg_speed (?xs ! i),
          prev_hour_speed = h_avg_speed (?xs ! (i - 1)),
          delta_speed = sql_round2 (sql_minus (h_avg_speed (?xs ! i)) (h_avg_speed (?xs ! (i - 1))))\<rparr>"
    using i lag_scan_nth[of i ?xs None] by (simp add: query5_eq)
  have m: "hour_of_day (query5 rs ! (i - 1)) = h_hour_of_day (?xs ! (i - 1))"
       "avg_speed (query5 rs ! (i - 1)) = h_avg_speed (?xs ! (i - 1))"
    using i lag_scan_nth[of "i - 1" ?xs None] by (simp_all add: query5_eq)
  show "hour_of_day (query5 rs ! (i - 1)) < hour_of_day (query5 rs ! i)"
    using sorted_hourly_strict[OF i(4) i(2)] n m by simp
  from sorted_hourly_mem[OF i(2)] obtain a where a: "h_avg_speed (?xs ! i) = Some a" by blast
  from sorted_hourly_mem[OF i(3)] obtain p where p: "h_avg_speed (?xs ! (i - 1)) = Some p" by blast
  show "\<exists>a p. avg_speed (query5 rs ! i) = Some a \<and> avg_speed (query5 rs ! (i - 1)) = Some p \<and>
           prev_hour_speed (query5 rs ! i) = Some p \<and>
           delta_speed (query5 rs ! i) = Some (round2 (a - p))"
    using n m a p by (simp add: sql_round2_def sql_minus_def)
qed

theorem trend_delta_uses_preceding_present_hour_witness:
  "query5 trend_example \<noteq> []
   \<and> map hour_of_day (query5 trend_example) = [0, 1]
   \<and> prev_hour_speed (query5 trend_example ! 0) = None
   \<and> delta_speed (query5 trend_example ! 0) = None
   \<and> (0::nat) < 1 \<and> 1 < length (query5 trend_example)
   \<and> prev_hour_speed (query5 trend_example ! 1) = Some 10
   \<and> delta_speed (query5 trend_example ! 1) = Some (round2 (31 / 3 - 10))"
  using trend_delta_uses_preceding_present_hour[of trend_example]
  by (simp add: query5_trend_example round2_def)

text \<open>
  Claim C6 as it is worded asks for the exact difference. With one reading of speed 10 in
  hour 0 and readings of speed 10, 10 and 11 in hour 1 the averages are 10 and 31/3; the
  view reports 0.33, not 1/3.
\<close>

theorem trend_delta_exact_counterexample:
  "hour_of_day (query5 trend_example ! 1) = 1
   \<and> avg_speed (query5 trend_example ! 1) = Some (31 / 3)
   \<and> avg_speed (query5 trend_example ! 0) = Some 10
   \<and> delta_speed (query5 trend_example ! 1) = Some (33 / 100)
   \<and> delta_speed (query5 trend_example ! 1) \<noteq> Some (31 / 3 - 10)"
  by (simp add: query5_trend_example)

lemma query5_trend_tie_example:
  "query5 trend_tie_example =
     [\<lparr>hour_of_day = 0, avg_speed = Some 10, prev_hour_speed = None, delta_speed = None\<rparr>,
      \<lparr>hour_of_day = 1, avg_speed = Some (81 / 8), prev_hour_speed = Some 10,
       delta_speed = Some (13 / 100)\<rparr>,
      \<lparr>hour_of_day = 2, avg_speed = Some 10, prev_hour_speed = Some (81 / 8),
       delta_speed = Some (- (13 / 100))\<rparr>]"
  by (simp add: query5_def trend_tie_example_def hourly_def group_by_def extract_hour_def avg_def
      sql_round2_def sql_minus_def round2_def Let_def)

lemma round2_nonneg:
  assumes "0 \<le> x"
  shows "- (1 / 200) < round2 x - x" "round2 x - x \<le> 1 / 200" "0 \<le> round2 x"
proof -
  let ?n = "\<lfloor>x * 100 + 1 / 2\<rfloor>"
  have r: "round2 x = real_of_int ?n / 100"
  proof (cases "x = 0")
    case True
    then show ?thesis by (simp add: round2_def)
  next
    case False
    with assms have "0 < x" by simp
    then show ?thesis by (simp add: round2_def)
  qed
  have "real_of_int ?n \<le> x * 100 + 1 / 2" "x * 100 + 1 / 2 < real_of_int ?n + 1" by linarith+
  then show "- (1 / 200) < round2 x - x" "round2 x - x \<le> 1 / 200" unfolding r by linarith+
  have "0 \<le> ?n" using assms by simp
  then show "0 \<le> round2 x" unfolding r by simp
qed

lemma round2_minus: "round2 (- x) = - round2 x"
  by (simp add: round2_def sgn_minus)

lemma round2_hundredths: "\<exists>k::int. round2 x = real_of_int k / 100"
proof -
  let ?n = "\<lfloor>\<bar>x\<bar> * 100 + 1 / 2\<rfloor>"
  consider "x < 0" | "x = 0" | "0 < x" by linarith
  then show ?thesis
  proof cases
    case 1
    then have "round2 x = real_of_int (- ?n) / 100" by (simp add: round2_def)
    then show ?thesis ..
  next
    case 2
    then have "round2 x = real_of_int 0 / 100" by (simp add: round2_def)
    then show ?thesis ..
  next
    case 3
    then have "round2 x = real_of_int ?n / 100" by (simp add: round2_def)
    then show ?thesis ..
  qed
qed

lemma round2_near: "\<bar>round2 x - x\<bar> \<le> 1 / 200"
proof (cases "0 \<le> x")
  case True
  from round2_nonneg(1,2)[OF this] show ?thesis by linarith
next
  case False
  then have "0 \<le> - x" by simp
  from round2_nonneg(1,2)[OF this] show ?thesis unfolding round2_minus by linarith
qed

lemma round2_tie: "\<bar>round2 x - x\<bar> = 1 / 200 \<Longrightarrow> \<bar>x\<bar> < \<bar>round2 x\<bar>"
proof (cases "0 \<le> x")
  case True
  assume "\<bar>round2 x - x\<bar> = 1 / 200"
  with round2_nonneg[OF True] True show ?thesis by linarith
next
  case False
  then have n: "0 \<le> - x" by simp
  assume "\<bar>round2 x - x\<bar> = 1 / 200"
  with round2_nonneg[OF n] n show ?thesis unfolding round2_minus by linarith
qed

text \<open>
  Claim C10. In every row of the hourly-trend view \<open>avg_speed\<close> is the \<open>AVG(speed)\<close> that
  the view \<open>hourly\<close> holds for the row's hour, passed on as it is, and \<open>prev_hour_speed\<close>
  is undefined or the \<open>avg_speed\<close> of a row, again as it is. \<open>delta_speed\<close> is defined
  exactly when \<open>prev_hour_speed\<close> is, and it is the difference \<open>avg_speed - prev_hour_speed\<close>
  rounded to two decimal places: a whole number of hundredths, at most half a hundredth
  away from the difference, and of the two nearest hundredths the one farther from zero
  when the difference lies halfway between them.
\<close>

theorem trend_delta_rounded_to_two_places:
  "\<forall>row \<in> set (query5 rs).
     (\<exists>x \<in> set (hourly rs). h_hour_of_day x = hour_of_day row \<and> h_avg_speed x = avg_speed row)
     \<and> prev_hour_speed row \<in> insert None (avg_speed ` set (query5 rs))
     \<and> (\<exists>a. avg_speed row = Some a \<and>
          (case prev_hour_speed row of
             None \<Rightarrow> delta_speed row = None
           | Some p \<Rightarrow>
               \<exists>k::int. delta_speed row = Some (real_of_int k / 100)
                 \<and> \<bar>real_of_int k / 100 - (a - p)\<bar> \<le> 1 / 200
                 \<and> (\<bar>real_of_int k / 100 - (a - p)\<bar> = 1 / 200
                      \<longrightarrow> \<bar>a - p\<bar> < \<bar>real_of_int k / 100\<bar>)))"
proof
  fix row assume "row \<in> set (query5 rs)"
  let ?xs = "sort_key h_hour_of_day (hourly rs)"
  from \<open>row \<in> set (query5 rs)\<close> obtain i where i: "i < length (hourly rs)" "row = query5 rs ! i"
    by (auto simp: in_set_conv_nth query5_eq length_lag_scan)
  have n: "row = \<lparr>hour_of_day = h_hour_of_day (?xs ! i), avg_speed = h_avg_speed (?xs ! i),
          prev_hour_speed = (if i = 0 then None else h_avg_speed (?xs ! (i - 1))),
          delta_speed = sql_round2 (sql_minus (h_avg_speed (?xs ! i))
            (if i = 0 then None else h_avg_speed (?xs ! (i - 1))))\<rparr>"
    using i lag_scan_nth[of i ?xs None] by (simp add: query5_eq)
  from sorted_hourly_mem[OF i(1)] obtain a where a: "h_avg_speed (?xs ! i) = Some a"
    by blast
  have "?xs ! i \<in> set ?xs" using i(1) by (intro nth_mem) simp
  then have "?xs ! i \<in> set (hourly rs)" by simp
  moreover have "h_hour_of_day (?xs ! i) = hour_of_day row" "h_avg_speed (?xs ! i) = avg_speed row"
    by (simp_all add: n)
  ultimately have c1: "\<exists>x \<in> set (hourly rs). h_hour_of_day x = hour_of_day row \<and> h_avg_speed x = avg_speed row"
    by blast
  have c2: "prev_hour_speed row \<in> insert None (avg_speed ` set (query5 rs))"
  proof (cases "i = 0")
    case True
    then show ?thesis by (simp add: n)
  next
    case False
    with i have j: "i - 1 < length (query5 rs)" by (simp add: query5_eq length_lag_scan)
    then have "avg_speed (query5 rs ! (i - 1)) = h_avg_speed (?xs ! (i - 1))"
      using lag_scan_nth[of "i - 1" ?xs None] by (simp add: query5_eq length_lag_scan)
    moreover have "query5 rs ! (i - 1) \<in> set (query5 rs)" using j by (rule nth_mem)
    ultimately have "h_avg_speed (?xs ! (i - 1)) \<in> avg_speed ` set (query5 rs)"
      by (metis imageI)
    with False show ?thesis by (simp add: n)
  qed
  have d: "delta_speed row = map_option (\<lambda>p. round2 (a - p)) (prev_hour_speed row)"
    by (simp add: n a sql_round2_def sql_minus_def split: option.splits)
  have c3: "case prev_hour_speed row of
             None \<Rightarrow> delta_speed row = None
           | Some p \<Rightarrow>
               \<exists>k::int. delta_speed row = Some (real_of_int k / 100)
                 \<and> \<bar>real_of_int k / 100 - (a - p)\<bar> \<le> 1 / 200
                 \<and> (\<bar>real_of_int k / 100 - (a - p)\<bar> = 1 / 200
                      \<longrightarrow> \<bar>a - p\<bar> < \<bar>real_of_int k / 100\<bar>)"
  proof (cases "prev_hour_speed row")
    case None
    then show ?thesis by (simp add: d)
  next
    case (Some p)
    obtain k :: int where k: "round2 (a - p) = real_of_int k / 100"
      using round2_hundredths[of "a - p"] by blast
    have "delta_speed row = Some (real_of_int k / 100)" by (simp add: d Some k)
    moreover have "\<bar>real_of_int k / 100 - (a - p)\<bar> \<le> 1 / 200"
      using round2_near[of "a - p"] unfolding k .
    moreover have "\<bar>real_of_int k / 100 - (a - p)\<bar> = 1 / 200 \<longrightarrow> \<bar>a - p\<bar> < \<bar>real_of_int k / 100\<bar>"
      using round2_tie[of "a - p"] unfolding k by blast
    ultimately show ?thesis unfolding Some option.case by blast
  qed
  have "avg_speed row = Some a" by (simp add: n a)
  with c1 c2 c3 show "(\<exists>x \<in> set (hourly rs). h_hour_of_day x = hour_of_day row \<and> h_avg_speed x = avg_speed row)
     \<and> prev_hour_speed row \<in> insert None (avg_speed ` set (query5 rs))
     \<and> (\<exists>a. avg_speed row = Some a \<and>
          (case prev_hour_speed row of
             None \<Rightarrow> delta_speed row = None
           | Some p \<Rightarrow>
               \<exists>k::int. delta_speed row = Some (real_of_int k / 100)
                 \<and> \<bar>real_of_int k / 100 - (a - p)\<bar> \<le> 1 / 200
                 \<and> (\<bar>real_of_int k / 100 - (a - p)\<bar> = 1 / 200
                      \<longrightarrow> \<bar>a - p\<bar> < \<bar>real_of_int k / 100\<bar>)))"
    by blast
qed

theorem trend_delta_rounded_to_two_places_witness:
  "map hour_of_day (query5 trend_tie_example) = [0, 1, 2]
   \<and> map avg_speed (query5 trend_tie_example) = [Some 10, Some (81 / 8), Some 10]
   \<and> map prev_hour_speed (query5 trend_tie_example) = [None, Some 10, Some (81 / 8)]
   \<and> map delta_speed (query5 trend_tie_example) = [None, Some (13 / 100), Some (- (13 / 100))]
   \<and> \<bar>13 / 100 - (81 / 8 - 10)\<bar> = (1 / 200 :: real)
   \<and> \<bar>81 / 8 - 10\<bar> < \<bar>13 / 100 :: real\<bar>
   \<and> \<bar>- (13 / 100) - (10 - 81 / 8)\<bar> = (1 / 200 :: real)
   \<and> \<bar>10 - 81 / 8\<bar> < \<bar>- (13 / 100) :: real\<bar>"
  using trend_delta_rounded_to_two_places[of trend_tie_example]
  by (simp add: query5_trend_tie_example)

section \<open>The anomaly z-score\<close>

text \<open>
  Claim C4 asks that a sensor with constant speed gets a sentinel z-score. The statement
  divides by \<open>std_speed\<close> unguarded: for a sensor with two readings at speed 50 the standard
  deviation is 0, the division raises \<open>division by zero\<close>, and the view ends in that
  exception. With the first of the two readings alone the standard deviation is \<open>NULL\<close>,
  and the statement does return a row: no z-score, status \<open>Regular\<close>.
\<close>

theorem constant_speed_sensor_division_by_zero:
  "query6 constant_speed_example one_sensor = Inl DivisionByZero
   \<and> run_view srt Irregular constant_speed_example one_sensor = Inl DivisionByZero
   \<and> query6 (take 1 constant_speed_example) one_sensor =
        Inr [\<lparr>q6_sensor_id = 1, q6_location_name = ''A'', q6_record_time = 0, q6_speed = 50,
              z_score = None, q6_traffic_status = ''Regular''\<rparr>]"
  by (simp add: run_view_def query6_def anomaly_def stats_def group_by_def joined_def avg_def stddev_def
      sql_div_def sql_minus_def sql_round2_def abs_desc_key_def constant_speed_example_def
      one_sensor_def)

section \<open>Empty snapshots\<close>

lemma load_data_Nil: "\<exists>df. load_data srt a [] ss = Inr df \<and> df_empty df"
  by (cases a)
    (simp_all add: query1_def peak_ranker_def hourly_flow_def rank_within_def query2_def query3_def
      query4_def query5_def hourly_def query6_def query7_def joined_Nil group_by_Nil)

lemma render_not_warning: "render df \<noteq> Warning w"
  by (cases df) simp_all

text \<open>
  Claim C8. With no readings in the snapshot each of the seven views ends in the warning
  \<open>No data returned.\<close>: no exception leaves the driver and no row is shown. The warning
  is shown for nothing else: a view ends in it exactly when its statement returned a data
  frame without rows.
\<close>

theorem empty_snapshot_no_data:
  "run_view srt a [] ss = Inr (Warning ''No data returned.'')
   \<and> (run_view srt a rs ss = Inr (Warning ''No data returned.'')
        \<longleftrightarrow> (\<exists>df. load_data srt a rs ss = Inr df \<and> df_empty df))"
proof
  from load_data_Nil[of srt a ss] show "run_view srt a [] ss = Inr (Warning ''No data returned.'')"
    by (auto simp: run_view_def)
next
  show "run_view srt a rs ss = Inr (Warning ''No data returned.'')
        \<longleftrightarrow> (\<exists>df. load_data srt a rs ss = Inr df \<and> df_empty df)"
    by (cases "load_data srt a rs ss") (auto simp: run_view_def render_not_warning)
qed

section \<open>Readings without a sensor\<close>

lemma unmatched_no_sensor:
  "\<not> matched ss r \<Longrightarrow> filter (\<lambda>s. s_sensor_id s = r_sensor_id r) ss = []"
  unfolding matched_def filter_empty_conv by (metis image_eqI set_map)

lemma joined_filter_matched: "joined (filter (matched ss) rs) ss = joined rs ss"
  unfolding joined_conv by (induction rs) (simp_all add: unmatched_no_sensor)

lemma joined_filter_unmatched: "joined (filter (\<lambda>r. \<not> matched ss r) rs) ss = []"
  unfolding joined_conv by (induction rs) (simp_all add: unmatched_no_sensor)

text \<open>
  Claim C9. Each of the six statements that join the readings with \<open>sensors\<close> returns the
  same result (for the z-scores, also the same error) when the readings without a matching
  sensor are removed from the snapshot first, and those readings alone join with nothing.
\<close>

theorem unmatched_readings_excluded:
  "query1 (filter (matched ss) rs) ss = query1 rs ss
   \<and> query2 (filter (matched ss) rs) ss = query2 rs ss
   \<and> query3 srt (filter (matched ss) rs) ss = query3 srt rs ss
   \<and> query4 (filter (matched ss) rs) ss = query4 rs ss
   \<and> query6 (filter (matched ss) rs) ss = query6 rs ss
   \<and> query7 (filter (matched ss) rs) ss = query7 rs ss
   \<and> joined (filter (\<lambda>r. \<not> matched ss r) rs) ss = []"
  by (simp add: query1_def hourly_flow_def query2_def speed_stats_def query3_def query4_def
      query6_def stats_def query7_def joined_filter_matched joined_filter_unmatched)

end
